theory Spec2Isabelle
  imports Complex_Main
begin

section \<open>Go values the handlers work with\<close>

text \<open>
  A Go \<open>error\<close> is a value with a message: \<open>errors.New\<close> and \<open>fmt.Errorf\<close> build one
  from a string, \<open>%v\<close> and \<open>%w\<close> print the message of the error they wrap. A function that
  returns \<open>(T, error)\<close> is modelled with the result type \<open>error + T\<close>, \<open>Inl\<close> for
  \<open>err != nil\<close>.
\<close>

datatype error = errorString string

fun Error :: "error \<Rightarrow> string" where
  "Error (errorString s) = s"

text \<open>
  Instants and durations are natural numbers of milliseconds, counted from the moment the
  handler creates its context; the handler's own statements take no time, only a call
  to the completion provider does. A computation either returns a value at an instant or
  never returns.
\<close>

datatype 'a timed = Never | At nat 'a

definition Second :: nat where
  "Second = 1000"

text \<open>
  Package \<open>context\<close>: \<open>Background\<close> and \<open>TODO\<close> carry no deadline, \<open>WithTimeout parent d\<close>
  (created at instant 0) expires at \<open>d\<close> or with its parent, whichever comes first.
\<close>

datatype Context = Background | TODO | WithTimeout Context nat

fun Deadline :: "Context \<Rightarrow> nat option" where
  "Deadline Background = None"
| "Deadline TODO = None"
| "Deadline (WithTimeout parent d) =
     (case Deadline parent of None \<Rightarrow> Some d | Some p \<Rightarrow> Some (min p d))"

definition expired :: "Context \<Rightarrow> nat \<Rightarrow> bool" where
  "expired ctx now = (case Deadline ctx of None \<Rightarrow> False | Some d \<Rightarrow> d \<le> now)"

definition DeadlineExceeded :: error where
  "DeadlineExceeded = errorString ''context deadline exceeded''"

subsection \<open>The structs of ask\_ai.go\<close>

record Part =
  Text :: string

record Content =
  Parts :: "Part list"

record AiRequest =
  Contents :: "Content list"

record HtmlRequest =
  Html :: string

record Candidate =
  Content :: Content

record AiResponse =
  Candidates :: "Candidate list"

record UserProfile =
  Bio :: string
  Experience :: string
  Projects :: string

record Answer =
  Question :: string
  Answer :: string

record ClaudeRequest =
  Prompt :: string
  MaxTokensToSample :: int
  Temperature :: real
  StopSequences :: "string list"

record ClaudeResponse =
  Completion :: string

subsection \<open>HTTP messages and the provider\<close>

text \<open>
  An \<open>http.Request\<close> with the context it was built with, and the provider's
  \<open>http.Response\<close>, whose body is what \<open>io.ReadAll\<close> makes of it. A \<open>Reply\<close> is what the
  provider does with one request: it answers after \<open>latency\<close> milliseconds (\<open>None\<close>: it
  never answers) with \<open>outcome\<close>, a transport error or a response.
\<close>

record Request =
  Method :: string
  URL :: string
  Header :: "(string \<times> string) list"
  Body :: string
  Ctx :: Context

record Response =
  StatusCode :: nat
  ReadAll :: "error + string"

record Reply =
  latency :: "nat option"
  outcome :: "error + Response"

type_synonym network = "Request \<Rightarrow> Reply"

text \<open>
  The round trip of Go's HTTP clients (\<open>http.Client.Do\<close>, and the AWS SDK's client under
  \<open>InvokeModel\<close>), which are libraries and not code of the repository, after their
  documented contract: a request whose context has expired fails at once and nothing
  is sent; a request in flight when its context expires is abandoned at the deadline
  with the context's error; without a deadline the caller waits for the provider. The
  second component lists the requests that went out. The context's error is given as it
  is, without the method and URL that \<open>http.Client.Do\<close> puts in front of its message.
\<close>

definition RoundTrip :: "network \<Rightarrow> nat \<Rightarrow> Context \<Rightarrow> Request \<Rightarrow> (error + Response) timed \<times> Request list" where
  "RoundTrip net now ctx req =
     (if expired ctx now then (At now (Inl DeadlineExceeded), [])
      else (case latency (net req) of
              None \<Rightarrow>
                (case Deadline ctx of
                   None \<Rightarrow> (Never, [req])
                 | Some d \<Rightarrow> (At d (Inl DeadlineExceeded), [req]))
            | Some l \<Rightarrow>
                (case Deadline ctx of
                   None \<Rightarrow> (At (now + l) (outcome (net req)), [req])
                 | Some d \<Rightarrow>
                     if now + l < d then (At (now + l) (outcome (net req)), [req])
                     else (At d (Inl DeadlineExceeded), [req]))))"

section \<open>What the handlers call and the sources do not hold\<close>

text \<open>
  \<open>getValueFromToken\<close>, \<open>cleanHTMLContent\<close> and \<open>extractQuestions\<close> are functions of the
  repository defined in files other than ask\_ai.go and main.go; the database handle,
  the JSON codec, the URL parser, the AWS configuration loader and the process
  environment are libraries or the outside world. Each is a parameter of the model, so a
  theorem about a handler holds whatever they compute. \<open>network E k\<close> is the provider
  as the call of the \<open>k\<close>-th goroutine of a request meets it.
\<close>

record Config =
  Region :: string
  Credentials :: "string \<times> string \<times> string"

record env =
  apiKey :: string
  getValueFromToken :: "Request \<Rightarrow> string \<Rightarrow> error + string"
  QueryRow_Scan :: "string \<Rightarrow> string list \<Rightarrow> error + UserProfile"
  cleanHTMLContent :: "string \<Rightarrow> string"
  extractQuestions :: "string \<Rightarrow> string list"
  json_Decode :: "string \<Rightarrow> error + HtmlRequest"
  json_Marshal :: "AiRequest \<Rightarrow> error + string"
  json_Unmarshal :: "string \<Rightarrow> error + AiResponse"
  url_Parse :: "string \<Rightarrow> error option"
  network :: "nat \<Rightarrow> network"
  Getenv :: "string \<Rightarrow> string"
  LoadDefaultConfig :: "Context \<Rightarrow> string \<Rightarrow> string \<times> string \<times> string \<Rightarrow> error + Config"
  json_Marshal_Claude :: "ClaudeRequest \<Rightarrow> error + string"
  json_Unmarshal_Claude :: "string \<Rightarrow> error + ClaudeResponse"

text \<open>
  \<open>http.NewRequestWithContext\<close> fails when the URL does not parse (the method is the
  constant POST and the context is never nil here); \<open>http.Client.Do\<close> is the round trip
  under the request's own context.
\<close>

definition NewRequestWithContext :: "env \<Rightarrow> Context \<Rightarrow> string \<Rightarrow> string \<Rightarrow> string \<Rightarrow> error + Request" where
  "NewRequestWithContext E ctx method url body =
     (case url_Parse E url of
        Some err \<Rightarrow> Inl err
      | None \<Rightarrow> Inr \<lparr>Method = method, URL = url, Header = [], Body = body, Ctx = ctx\<rparr>)"

definition client_Do :: "network \<Rightarrow> nat \<Rightarrow> Request \<Rightarrow> (error + Response) timed \<times> Request list" where
  "client_Do net now req = RoundTrip net now (Ctx req) req"

text \<open>The decimal digits of a number, as \<open>%d\<close> prints it.\<close>

fun show_nat :: "nat \<Rightarrow> string" where
  "show_nat n =
     (if n < 10 then [char_of (48 + n)]
      else show_nat (n div 10) @ [char_of (48 + n mod 10)])"

declare show_nat.simps [simp del]

section \<open>ask\_ai.go, lines 1 to 224: the handler that main.go serves\<close>

subsection \<open>getUserProfile\<close>

definition profile_failed :: string where
  \<comment> \<open>the text before %v in getUserProfile's fmt.Errorf, as UTF-8 bytes\<close>
  "profile_failed =
    [CHR 0xE3, CHR 0x83, CHR 0x97, CHR 0xE3, CHR 0x83, CHR 0xAD, CHR 0xE3, CHR 0x83, CHR 0x95, CHR 0xE3,
     CHR 0x82, CHR 0xA3, CHR 0xE3, CHR 0x83, CHR 0xBC, CHR 0xE3, CHR 0x83, CHR 0xAB, CHR 0xE3, CHR 0x81,
     CHR 0xAE, CHR 0xE5, CHR 0x8F, CHR 0x96, CHR 0xE5, CHR 0xBE, CHR 0x97, CHR 0xE3, CHR 0x81, CHR 0xAB,
     CHR 0xE5, CHR 0xA4, CHR 0xB1, CHR 0xE6, CHR 0x95, CHR 0x97, CHR 0xE3, CHR 0x81, CHR 0x97, CHR 0xE3,
     CHR 0x81, CHR 0xBE, CHR 0xE3, CHR 0x81, CHR 0x97, CHR 0xE3, CHR 0x81, CHR 0x9F, CHR 0x3A, CHR 0x20]"

definition getUserProfile :: "env \<Rightarrow> string \<Rightarrow> error + UserProfile" where
  "getUserProfile E userID =
     (case QueryRow_Scan E ''SELECT bio, experience, projects FROM users WHERE id=$1'' [userID] of
        Inl err \<Rightarrow> Inl (errorString (profile_failed @ Error err))
      | Inr profile \<Rightarrow> Inr profile)"

subsection \<open>sendToAi\<close>

text \<open>
  The function in the order of its statements: marshal the request body, build the request
  with the caller's context, send it, read the body, check the status, decode, and take
  the first part of the first candidate. Every \<open>return "", err\<close> is an \<open>Inl\<close>.
\<close>

definition sendToAi :: "env \<Rightarrow> network \<Rightarrow> nat \<Rightarrow> Context \<Rightarrow> string \<Rightarrow> (error + string) timed \<times> Request list" where
  "sendToAi E net now ctx question =
     (let url = ''https://generativelanguage.googleapis.com/v1/models/gemini-1.5-flash:generateContent?key='' @ apiKey E in
      case json_Marshal E \<lparr>Contents = [\<lparr>Parts = [\<lparr>Text = question\<rparr>]\<rparr>]\<rparr> of
        Inl err \<Rightarrow> (At now (Inl err), [])
      | Inr reqBody \<Rightarrow>
     (case NewRequestWithContext E ctx ''POST'' url reqBody of
        Inl err \<Rightarrow> (At now (Inl err), [])
      | Inr req0 \<Rightarrow>
     (let req = req0\<lparr>Header := [(''Content-Type'', ''application/json'')]\<rparr> in
      case client_Do net now req of
        (Never, out) \<Rightarrow> (Never, out)
      | (At t (Inl err), out) \<Rightarrow> (At t (Inl err), out)
      | (At t (Inr resp), out) \<Rightarrow>
     (case ReadAll resp of
        Inl err \<Rightarrow> (At t (Inl err), out)
      | Inr body \<Rightarrow>
          if StatusCode resp \<noteq> 200
          then (At t (Inl (errorString (''error: request '' @ show_nat (StatusCode resp) @ '': '' @ body))), out)
          else (case json_Unmarshal E body of
                  Inl err \<Rightarrow> (At t (Inl err), out)
                | Inr geminiResp \<Rightarrow>
                    if length (Candidates geminiResp) > 0
                       \<and> length (Parts (Content (Candidates geminiResp ! 0))) > 0
                    then (At t (Inr (Text (Parts (Content (Candidates geminiResp ! 0)) ! 0))), out)
                    else (At t (Inl (errorString ''no answer found'')), out))))))"

subsection \<open>generatePromptWithBio\<close>

definition bio_sep1 :: string where
  \<comment> \<open>combinedBio: the text between Bio and Experience\<close>
  "bio_sep1 =
    [CHR 0xE3, CHR 0x81, CHR 0xA7, CHR 0xE3, CHR 0x81, CHR 0x99, CHR 0xE3, CHR 0x80, CHR 0x82, CHR 0xE4,
     CHR 0xBB, CHR 0x8A, CHR 0xE3, CHR 0x81, CHR 0xBE, CHR 0xE3, CHR 0x81, CHR 0xA7, CHR 0xE3, CHR 0x81,
     CHR 0xAE, CHR 0xE7, CHR 0xB5, CHR 0x8C, CHR 0xE9, CHR 0xA8, CHR 0x93, CHR 0xE3, CHR 0x81, CHR 0xAF]"

definition bio_sep2 :: string where
  \<comment> \<open>combinedBio: the text between Experience and Projects\<close>
  "bio_sep2 =
    [CHR 0xE3, CHR 0x81, CHR 0xA7, CHR 0xE3, CHR 0x81, CHR 0x99, CHR 0xE3, CHR 0x80, CHR 0x82, CHR 0xE3,
     CHR 0x81, CHR 0x93, CHR 0xE3, CHR 0x82, CHR 0x8C, CHR 0xE3, CHR 0x81, CHR 0xBE, CHR 0xE3, CHR 0x81,
     CHR 0xA7, CHR 0xE3, CHR 0x81, CHR 0xAB, CHR 0xE4, CHR 0xBD, CHR 0x9C, CHR 0xE3, CHR 0x81, CHR 0xA3,
     CHR 0xE3, CHR 0x81, CHR 0xA6, CHR 0xE3, CHR 0x81, CHR 0x8D, CHR 0xE3, CHR 0x81, CHR 0x9F, CHR 0xE4,
     CHR 0xBD, CHR 0x9C, CHR 0xE5, CHR 0x93, CHR 0x81, CHR 0xE3, CHR 0x81, CHR 0xAF]"

definition prompt_head :: string where
  \<comment> \<open>the prompt: the text before the biography\<close>
  "prompt_head =
    [CHR 0xE3, CHR 0x81, CHR 0x82, CHR 0xE3, CHR 0x81, CHR 0xAA, CHR 0xE3, CHR 0x81, CHR 0x9F, CHR 0xE3,
     CHR 0x81, CHR 0xAE, CHR 0xE7, CHR 0xB5, CHR 0x8C, CHR 0xE6, CHR 0xAD, CHR 0xB4, CHR 0xE3, CHR 0x81,
     CHR 0xAF]"

definition prompt_rules :: string where
  \<comment> \<open>the prompt: the text between the biography and the question, ending in a newline\<close>
  "prompt_rules =
    [CHR 0xE3, CHR 0x81, CHR 0xA7, CHR 0xE3, CHR 0x81, CHR 0x99, CHR 0xE3, CHR 0x80, CHR 0x82, CHR 0xE4,
     CHR 0xBB, CHR 0xA5, CHR 0xE4, CHR 0xB8, CHR 0x8B, CHR 0xE3, CHR 0x81, CHR 0xAE, CHR 0xE8, CHR 0xB3,
     CHR 0xAA, CHR 0xE5, CHR 0x95, CHR 0x8F, CHR 0xE3, CHR 0x81, CHR 0xAB, CHR 0xE7, CHR 0xAD, CHR 0x94,
     CHR 0xE3, CHR 0x81, CHR 0x88, CHR 0xE3, CHR 0x81, CHR 0xA6, CHR 0xE3, CHR 0x81, CHR 0x8F, CHR 0xE3,
     CHR 0x81, CHR 0xA0, CHR 0xE3, CHR 0x81, CHR 0x95, CHR 0xE3, CHR 0x81, CHR 0x84, CHR 0xE3, CHR 0x80,
     CHR 0x82, CHR 0xE7, CHR 0xB0, CHR 0xA1, CHR 0xE6, CHR 0xBD, CHR 0x94, CHR 0xE3, CHR 0x81, CHR 0x8B,
     CHR 0xE3, CHR 0x81, CHR 0xA4, CHR 0xE5, CHR 0x85, CHR 0xB7, CHR 0xE4, CHR 0xBD, CHR 0x93, CHR 0xE7,
     CHR 0x9A, CHR 0x84, CHR 0xE3, CHR 0x81, CHR 0xAB, CHR 0xE8, CHR 0xA8, CHR 0x98, CHR 0xE8, CHR 0xBF,
     CHR 0xB0, CHR 0xE3, CHR 0x81, CHR 0x97, CHR 0xE3, CHR 0x80, CHR 0x81, CHR 0x23, CHR 0xE3, CHR 0x82,
     CHR 0x84, CHR 0x2A, CHR 0x2C, CHR 0x2D, CHR 0xE3, CHR 0x81, CHR 0xAA, CHR 0xE3, CHR 0x81, CHR 0xA9,
     CHR 0xE3, CHR 0x81, CHR 0xAF, CHR 0xE4, CHR 0xBD, CHR 0xBF, CHR 0xE7, CHR 0x94, CHR 0xA8, CHR 0xE3,
     CHR 0x81, CHR 0x9B, CHR 0xE3, CHR 0x81, CHR 0x9A, CHR 0xE3, CHR 0x81, CHR 0xAB, CHR 0xE5, CHR 0xB9,
     CHR 0xB3, CHR 0xE6, CHR 0x96, CHR 0x87, CHR 0xE3, CHR 0x81, CHR 0xA7, CHR 0xE8, CHR 0xA7, CHR 0xA3,
     CHR 0xE7, CHR 0xAD, CHR 0x94, CHR 0xE9, CHR 0x83, CHR 0xA8, CHR 0xE5, CHR 0x88, CHR 0x86, CHR 0xE3,
     CHR 0x81, CHR 0xAE, CHR 0xE3, CHR 0x81, CHR 0xBF, CHR 0xE3, CHR 0x82, CHR 0x92, CHR 0xE5, CHR 0x87,
     CHR 0xBA, CHR 0xE5, CHR 0x8A, CHR 0x9B, CHR 0xE3, CHR 0x81, CHR 0x97, CHR 0xE3, CHR 0x81, CHR 0xA6,
     CHR 0xE3, CHR 0x81, CHR 0x8F, CHR 0xE3, CHR 0x81, CHR 0xA0, CHR 0xE3, CHR 0x81, CHR 0x95, CHR 0xE3,
     CHR 0x81, CHR 0x84, CHR 0xE3, CHR 0x80, CHR 0x82, CHR 0x0A]"

definition generatePromptWithBio :: "UserProfile \<Rightarrow> string \<Rightarrow> string" where
  "generatePromptWithBio profile question =
     (let combinedBio = Bio profile @ bio_sep1 @ Experience profile @ bio_sep2 @ Projects profile
      in prompt_head @ combinedBio @ prompt_rules @ question)"

subsection \<open>The response writer\<close>

text \<open>
  What a handler has put on its \<open>http.ResponseWriter\<close>: the header map, the status line
  once it is written, and the body, a list of chunks. \<open>Encoded xs\<close> is the array
  \<open>json.NewEncoder(w).Encode\<close> serialises, kept as the array it encodes. As in net/http,
  only the first \<open>WriteHeader\<close> counts and the first \<open>Write\<close> without one sends 200;
  \<open>http.Error\<close> sets the plain-text headers, writes the status and the message with a
  newline.
\<close>

datatype chunk = Plain string | Encoded "Answer list"

record ResponseWriter =
  headers :: "string \<rightharpoonup> string"
  status :: "nat option"
  written :: "chunk list"

definition Header_Set :: "ResponseWriter \<Rightarrow> string \<Rightarrow> string \<Rightarrow> ResponseWriter" where
  "Header_Set w k v = w\<lparr>headers := (headers w)(k \<mapsto> v)\<rparr>"

definition WriteHeader :: "ResponseWriter \<Rightarrow> nat \<Rightarrow> ResponseWriter" where
  "WriteHeader w code = (case status w of None \<Rightarrow> w\<lparr>status := Some code\<rparr> | Some c \<Rightarrow> w)"

definition Write :: "ResponseWriter \<Rightarrow> chunk \<Rightarrow> ResponseWriter" where
  "Write w c = (let w' = WriteHeader w 200 in w'\<lparr>written := written w' @ [c]\<rparr>)"

definition http_Error :: "ResponseWriter \<Rightarrow> string \<Rightarrow> nat \<Rightarrow> ResponseWriter" where
  "http_Error w msg code =
     (let w1 = w\<lparr>headers := (headers w)(''Content-Length'' := None)\<rparr>;
          w2 = Header_Set w1 ''Content-Type'' ''text/plain; charset=utf-8'';
          w3 = Header_Set w2 ''X-Content-Type-Options'' ''nosniff''
      in Write (WriteHeader w3 code) (Plain (msg @ [CHR 0x0A])))"

definition StatusOK :: nat where "StatusOK = 200"
definition StatusBadRequest :: nat where "StatusBadRequest = 400"
definition StatusUnauthorized :: nat where "StatusUnauthorized = 401"
definition StatusInternalServerError :: nat where "StatusInternalServerError = 500"

subsection \<open>The fan-out\<close>

text \<open>
  The state the goroutines of one request share: the \<open>answers\<close> slice, the counter of the
  \<open>sync.WaitGroup\<close>, and, to observe them, the instant of the latest \<open>wg.Done\<close>, the
  requests sent to the provider, the lines given to \<open>log.Printf\<close> and the slot index of
  every assignment \<open>answers[i] = ...\<close> together with the goroutine that made it.
\<close>

record fanout =
  answers :: "Answer list"
  wg :: int
  clock :: nat
  sent :: "Request list"
  logged :: "string list"
  writes :: "(nat \<times> nat) list"

definition idle :: fanout where
  "idle = \<lparr>answers = [], wg = 0, clock = 0, sent = [], logged = [], writes = []\<rparr>"

text \<open>
  The body of the goroutine after its call to \<open>sendToAi\<close> has come back with \<open>r\<close> (lines 199
  to 206, and the same lines 408 to 415 of the second handler): \<open>k\<close> is the goroutine in
  the order of the \<open>go\<close> statements, \<open>i\<close> and \<open>q\<close> are its arguments. On an error it logs and returns, leaving its slot as
  it is; otherwise it stores the question and the answer in slot \<open>i\<close>. The deferred
  \<open>wg.Done\<close> runs on both paths. A call that never comes back never reaches them. An index
  outside the slice would panic; \<open>panics\<close> below says when, and it never does.
\<close>

fun settle :: "nat \<Rightarrow> nat \<times> string \<Rightarrow> (error + string) timed \<times> Request list \<Rightarrow> fanout \<Rightarrow> fanout" where
  "settle k (i, q) (Never, out) s = s\<lparr>sent := sent s @ out\<rparr>"
| "settle k (i, q) (At t (Inl err), out) s =
     s\<lparr>sent := sent s @ out,
       logged := logged s @ [''Error sending to AI: '' @ Error err],
       wg := wg s - 1, clock := max (clock s) t\<rparr>"
| "settle k (i, q) (At t (Inr answer), out) s =
     s\<lparr>sent := sent s @ out,
       answers := (answers s)[i := \<lparr>Question = q, Answer = answer\<rparr>],
       writes := writes s @ [(k, i)],
       wg := wg s - 1, clock := max (clock s) t\<rparr>"

definition panics :: "fanout \<Rightarrow> bool" where
  "panics s = (\<exists>p \<in> set (writes s). \<not> snd p < length (answers s))"

text \<open>
  The loop \<open>for i, question := range questions\<close> starts one goroutine per question with the
  arguments \<open>(i, question)\<close>, after \<open>wg.Add(1)\<close>. The goroutines then run to their end in an
  order the scheduler chooses: \<open>sched\<close> lists them in the order in which they end.
  \<open>client k q\<close> is the call \<open>sendToAi(ctx, prompt)\<close> of goroutine \<open>k\<close> for its question
  \<open>q\<close>. The calls share nothing but the provider, whose behaviour towards each of them
  is given, and a goroutine touches the shared state only after its call, in the steps
  of \<open>settle\<close>. \<open>run\<close> lets the goroutines run one after the other in the order of
  \<open>sched\<close>; the section on interleavings shows that every interleaving of their
  statements ends with the same slots, the same counter and the same clock.
\<close>

definition spawn :: "string list \<Rightarrow> (nat \<times> string) list" where
  "spawn questions = zip [0..<length questions] questions"

definition run :: "(nat \<Rightarrow> string \<Rightarrow> (error + string) timed \<times> Request list) \<Rightarrow> (nat \<times> string) list \<Rightarrow> nat list \<Rightarrow> fanout \<Rightarrow> fanout" where
  "run client spawned sched s =
     fold (\<lambda>k s. if k < length spawned then settle k (spawned ! k) (client k (snd (spawned ! k))) s else s) sched s"

text \<open>\<open>wg.Wait\<close> returns once the counter is zero, at the instant of the last \<open>wg.Done\<close>.\<close>

definition Wait :: "fanout \<Rightarrow> nat option" where
  "Wait s = (if wg s = 0 then Some (clock s) else None)"

text \<open>A scheduler lets every goroutine run, each once.\<close>

definition schedule :: "nat \<Rightarrow> nat list \<Rightarrow> bool" where
  "schedule n sched = (distinct sched \<and> set sched = {..<n})"

subsection \<open>processQuestionsWithAI\<close>

definition token_failed :: string where
  \<comment> \<open>the text before %v in the 401 message\<close>
  "token_failed =
    [CHR 0xE3, CHR 0x83, CHR 0x88, CHR 0xE3, CHR 0x83, CHR 0xBC, CHR 0xE3, CHR 0x82, CHR 0xAF, CHR 0xE3,
     CHR 0x83, CHR 0xB3, CHR 0xE3, CHR 0x81, CHR 0x8B, CHR 0xE3, CHR 0x82, CHR 0x89, CHR 0xE3, CHR 0x83,
     CHR 0xA6, CHR 0xE3, CHR 0x83, CHR 0xBC, CHR 0xE3, CHR 0x82, CHR 0xB6, CHR 0xE3, CHR 0x83, CHR 0xBC,
     CHR 0x49, CHR 0x44, CHR 0xE3, CHR 0x81, CHR 0xAE, CHR 0xE5, CHR 0x8F, CHR 0x96, CHR 0xE5, CHR 0xBE,
     CHR 0x97, CHR 0xE3, CHR 0x81, CHR 0xAB, CHR 0xE5, CHR 0xA4, CHR 0xB1, CHR 0xE6, CHR 0x95, CHR 0x97,
     CHR 0xE3, CHR 0x81, CHR 0x97, CHR 0xE3, CHR 0x81, CHR 0xBE, CHR 0xE3, CHR 0x81, CHR 0x97, CHR 0xE3,
     CHR 0x81, CHR 0x9F, CHR 0x3A, CHR 0x20]"

definition lookup_failed :: string where
  \<comment> \<open>the text before %v in the 500 message\<close>
  "lookup_failed =
    [CHR 0xE3, CHR 0x83, CHR 0xA6, CHR 0xE3, CHR 0x83, CHR 0xBC, CHR 0xE3, CHR 0x82, CHR 0xB6, CHR 0xE3,
     CHR 0x83, CHR 0xBC, CHR 0xE3, CHR 0x83, CHR 0x97, CHR 0xE3, CHR 0x83, CHR 0xAD, CHR 0xE3, CHR 0x83,
     CHR 0x95, CHR 0xE3, CHR 0x82, CHR 0xA3, CHR 0xE3, CHR 0x83, CHR 0xBC, CHR 0xE3, CHR 0x83, CHR 0xAB,
     CHR 0xE3, CHR 0x81, CHR 0xAE, CHR 0xE5, CHR 0x8F, CHR 0x96, CHR 0xE5, CHR 0xBE, CHR 0x97, CHR 0xE3,
     CHR 0x81, CHR 0xAB, CHR 0xE5, CHR 0xA4, CHR 0xB1, CHR 0xE6, CHR 0x95, CHR 0x97, CHR 0xE3, CHR 0x81,
     CHR 0x97, CHR 0xE3, CHR 0x81, CHR 0xBE, CHR 0xE3, CHR 0x81, CHR 0x97, CHR 0xE3, CHR 0x81, CHR 0x9F,
     CHR 0x3A, CHR 0x20]"

text \<open>
  What one run of the handler leaves: the response writer, the instant the handler
  returns (\<open>None\<close>: it never does, and nothing of the response after the CORS headers is
  written), and the state of the fan-out (\<open>idle\<close> with the log lines so far when the
  handler returns before it).
\<close>

record outcome =
  w :: ResponseWriter
  returns :: "nat option"
  final :: fanout

definition new_writer :: ResponseWriter where
  "new_writer = \<lparr>headers = Map.empty, status = None, written = []\<rparr>"

definition cors :: "ResponseWriter \<Rightarrow> ResponseWriter" where
  "cors w0 =
     (let w1 = Header_Set w0 ''Access-Control-Allow-Origin'' ''*'';
          w2 = Header_Set w1 ''Access-Control-Allow-Methods'' ''POST, OPTIONS''
      in Header_Set w2 ''Access-Control-Allow-Headers'' ''Content-Type'')"

definition respond :: "fanout \<Rightarrow> ResponseWriter \<Rightarrow> outcome" where
  "respond s w0 =
     (case Wait s of
        None \<Rightarrow> \<lparr>w = w0, returns = None, final = s\<rparr>
      | Some t \<Rightarrow>
          \<lparr>w = Write (Header_Set w0 ''Content-Type'' ''application/json'') (Encoded (answers s)),
           returns = Some t, final = s\<rparr>)"

definition processQuestionsWithAI :: "env \<Rightarrow> nat list \<Rightarrow> Request \<Rightarrow> outcome" where
  "processQuestionsWithAI E sched r =
     (let w0 = cors new_writer in
      if Method r = ''OPTIONS'' then \<lparr>w = WriteHeader w0 StatusOK, returns = Some 0, final = idle\<rparr>
      else
     (case getValueFromToken E r ''sub'' of
        Inl err \<Rightarrow>
          \<lparr>w = http_Error w0 (token_failed @ Error err) StatusUnauthorized,
           returns = Some 0, final = idle\<rparr>
      | Inr userID \<Rightarrow>
     (case getUserProfile E userID of
        Inl err \<Rightarrow>
          \<lparr>w = http_Error w0 (lookup_failed @ Error err) StatusInternalServerError,
           returns = Some 0, final = idle\<rparr>
      | Inr profile \<Rightarrow>
     (case json_Decode E (Body r) of
        Inl err \<Rightarrow>
          \<lparr>w = http_Error w0 ''Bad request'' StatusBadRequest, returns = Some 0,
           final = idle\<lparr>logged := [''Error decoding request body: '' @ Error err]\<rparr>\<rparr>
      | Inr req \<Rightarrow>
     (let cleanHtml = cleanHTMLContent E (Html req);
          lg = [''Cleaned HTML: '' @ cleanHtml];
          questions = extractQuestions E cleanHtml
      in
      if length questions = 0
      then \<lparr>w = http_Error w0 ''No questions found'' StatusBadRequest, returns = Some 0,
            final = idle\<lparr>logged := lg @ [''No questions found in the HTML content'']\<rparr>\<rparr>
      else
     (let ctx = WithTimeout Background (30 * Second);
          s0 = \<lparr>answers = replicate (length questions) \<lparr>Question = [], Answer = []\<rparr>,
                wg = int (length (spawn questions)), clock = 0, sent = [], logged = lg,
                writes = []\<rparr>;
          client = (\<lambda>k q. sendToAi E (network E k) 0 ctx (generatePromptWithBio profile q))
      in respond (run client (spawn questions) sched s0) w0))))))"

section \<open>ask\_ai.go, lines 225 to 433: the handler for the managed-model runtime\<close>

text \<open>
  The file holds a second \<open>sendToAi\<close>, \<open>generatePromptWithBio\<close> and
  \<open>processQuestionsWithAI\<close>, written against AWS Bedrock; their names carry the suffix
  \<open>_bedrock\<close> here. \<open>InvokeModel\<close> is the SDK's: one signed POST to the runtime's endpoint
  under the context it is given, an error for a status outside 200 to 299. The SDK's
  retries of a failed attempt and its check that the static credentials are not empty
  are left out: a run of the model is one in which the credentials are set and the first
  attempt is the only one.
\<close>

record InvokeModelInput =
  ModelId :: string
  ContentType :: string
  input_Body :: string

record InvokeModelOutput =
  output_Body :: string

definition InvokeModel :: "network \<Rightarrow> nat \<Rightarrow> Config \<Rightarrow> Context \<Rightarrow> InvokeModelInput \<Rightarrow> (error + InvokeModelOutput) timed \<times> Request list" where
  "InvokeModel net now cfg ctx params =
     (let req = \<lparr>Method = ''POST'',
                 URL = ''https://bedrock-runtime.'' @ Region cfg @ ''.amazonaws.com/model/''
                       @ ModelId params @ ''/invoke'',
                 Header = [(''Content-Type'', ContentType params)],
                 Body = input_Body params, Ctx = ctx\<rparr>
      in case RoundTrip net now ctx req of
        (Never, out) \<Rightarrow> (Never, out)
      | (At t (Inl err), out) \<Rightarrow> (At t (Inl err), out)
      | (At t (Inr resp), out) \<Rightarrow>
          if StatusCode resp < 200 \<or> 300 \<le> StatusCode resp
          then (At t (Inl (errorString (''operation error Bedrock Runtime: InvokeModel, https response error StatusCode: ''
                                         @ show_nat (StatusCode resp)))), out)
          else (case ReadAll resp of
                  Inl err \<Rightarrow> (At t (Inl err), out)
                | Inr body \<Rightarrow> (At t (Inr \<lparr>output_Body = body\<rparr>), out)))"

definition stop_sequence :: string where
  \<comment> \<open>the only element of StopSequences\<close>
  "stop_sequence =
    [CHR 0xE4, CHR 0xBB, CHR 0xA5, CHR 0xE4, CHR 0xB8, CHR 0x8A, CHR 0xE3, CHR 0x81, CHR 0xA7, CHR 0xE3,
     CHR 0x81, CHR 0x99, CHR 0xE3, CHR 0x80, CHR 0x82]"

definition sendToAi_bedrock :: "env \<Rightarrow> network \<Rightarrow> nat \<Rightarrow> Context \<Rightarrow> string \<Rightarrow> (error + string) timed \<times> Request list" where
  "sendToAi_bedrock E net now ctx question =
     (let region = ''us-west-2'' in
      case LoadDefaultConfig E ctx region
             (Getenv E ''AWS_ACCESS_KEY_ID'', Getenv E ''AWS_SECRET_ACCESS_KEY'',
              Getenv E ''AWS_SESSION_TOKEN'') of
        Inl err \<Rightarrow> (At now (Inl (errorString (''failed to load AWS config: '' @ Error err))), [])
      | Inr cfg \<Rightarrow>
     (let modelId = ''anthropic.claude-v2'';
          enclosedPrompt = ''Human: '' @ question @ [CHR 0x0A, CHR 0x0A] @ ''Assistant:''
      in
      case json_Marshal_Claude E
             \<lparr>Prompt = enclosedPrompt, MaxTokensToSample = 1000, Temperature = 2 / 10,
              StopSequences = [stop_sequence]\<rparr> of
        Inl err \<Rightarrow>
          (At now (Inl (errorString (''failed to marshal request body: '' @ Error err))), [])
      | Inr reqBody \<Rightarrow>
     (case InvokeModel net now cfg TODO
             \<lparr>ModelId = modelId, ContentType = ''application/json'', input_Body = reqBody\<rparr> of
        (Never, out) \<Rightarrow> (Never, out)
      | (At t (Inl err), out) \<Rightarrow>
          (At t (Inl (errorString (''failed to invoke model: '' @ Error err))), out)
      | (At t (Inr output), out) \<Rightarrow>
     (case json_Unmarshal_Claude E (output_Body output) of
        Inl err \<Rightarrow>
          (At t (Inl (errorString (''failed to unmarshal response: '' @ Error err))), out)
      | Inr response \<Rightarrow>
          if Completion response = []
          then (At t (Inl (errorString ''no answer found'')), out)
          else (At t (Inr (Completion response)), out)))))"

definition generatePromptWithBio_bedrock :: "string \<Rightarrow> string \<Rightarrow> string" where
  "generatePromptWithBio_bedrock bio question = prompt_head @ bio @ prompt_rules @ question"

definition bio :: string where
  \<comment> \<open>the biography the second handler hard-codes\<close>
  "bio =
    [CHR 0xE5, CHR 0xA4, CHR 0xA7, CHR 0xE5, CHR 0xAD, CHR 0xA6, CHR 0xE4, CHR 0xB8, CHR 0x80, CHR 0xE5,
     CHR 0xB9, CHR 0xB4, CHR 0xE7, CHR 0x94, CHR 0x9F, CHR 0xE3, CHR 0x81, CHR 0xAE, CHR 0xE9, CHR 0xA0,
     CHR 0x83, CHR 0xE3, CHR 0x81, CHR 0xAB, CHR 0xE6, CHR 0xB5, CHR 0xB7, CHR 0xE5, CHR 0xA4, CHR 0x96,
     CHR 0xE3, CHR 0x81, CHR 0xA7, CHR 0xE8, CHR 0x8B, CHR 0xB1, CHR 0xE8, CHR 0xAA, CHR 0x9E, CHR 0xE3,
     CHR 0x82, CHR 0x92, CHR 0xE4, CHR 0xB8, CHR 0x80, CHR 0xE5, CHR 0xB9, CHR 0xB4, CHR 0xE5, CHR 0xAD,
     CHR 0xA6, CHR 0xE3, CHR 0x81, CHR 0xB3, CHR 0xE3, CHR 0x80, CHR 0x81, CHR 0xE3, CHR 0x81, CHR 0x9D,
     CHR 0xE3, CHR 0x81, CHR 0xAE, CHR 0xE5, CHR 0xBE, CHR 0x8C, CHR 0xE3, CHR 0x80, CHR 0x81, CHR 0xE5,
     CHR 0xA4, CHR 0xA7, CHR 0xE5, CHR 0xAD, CHR 0xA6, CHR 0xE3, CHR 0x81, CHR 0xA7, CHR 0xE3, CHR 0x83,
     CHR 0x97, CHR 0xE3, CHR 0x83, CHR 0xAD, CHR 0xE3, CHR 0x82, CHR 0xB0, CHR 0xE3, CHR 0x83, CHR 0xA9,
     CHR 0xE3, CHR 0x83, CHR 0x9F, CHR 0xE3, CHR 0x83, CHR 0xB3, CHR 0xE3, CHR 0x82, CHR 0xB0, CHR 0xE3,
     CHR 0x81, CHR 0xAE, CHR 0xE5, CHR 0x8B, CHR 0x89, CHR 0xE5, CHR 0xBC, CHR 0xB7, CHR 0xE3, CHR 0x82,
     CHR 0x92, CHR 0xE3, CHR 0x81, CHR 0x97, CHR 0xE3, CHR 0x80, CHR 0x81, CHR 0xE4, CHR 0xBB, CHR 0x8A,
     CHR 0xE3, CHR 0x81, CHR 0xAF, CHR 0xE5, CHR 0x80, CHR 0x8B, CHR 0xE4, CHR 0xBA, CHR 0xBA, CHR 0xE9,
     CHR 0x96, CHR 0x8B, CHR 0xE7, CHR 0x99, CHR 0xBA, CHR 0xE3, CHR 0x81, CHR 0xAA, CHR 0xE3, CHR 0x81,
     CHR 0xA9, CHR 0xE3, CHR 0x82, CHR 0x92, CHR 0xE3, CHR 0x81, CHR 0x97, CHR 0xE3, CHR 0x81, CHR 0xA6,
     CHR 0xE3, CHR 0x81, CHR 0x84, CHR 0xE3, CHR 0x82, CHR 0x8B, CHR 0xE3, CHR 0x80, CHR 0x82, CHR 0x77,
     CHR 0x65, CHR 0x62, CHR 0xE3, CHR 0x82, CHR 0xA2, CHR 0xE3, CHR 0x83, CHR 0x97, CHR 0xE3, CHR 0x83,
     CHR 0xAA, CHR 0xE3, CHR 0x82, CHR 0xB1, CHR 0xE3, CHR 0x83, CHR 0xBC, CHR 0xE3, CHR 0x82, CHR 0xB7,
     CHR 0xE3, CHR 0x83, CHR 0xA7, CHR 0xE3, CHR 0x83, CHR 0xB3, CHR 0xE3, CHR 0x82, CHR 0x82, CHR 0xE4,
     CHR 0xBD, CHR 0x9C, CHR 0xE6, CHR 0x88, CHR 0x90, CHR 0xE3, CHR 0x81, CHR 0x97, CHR 0xE3, CHR 0x81,
     CHR 0x9F, CHR 0xE3, CHR 0x80, CHR 0x82, CHR 0x28, CHR 0x68, CHR 0x74, CHR 0x74, CHR 0x70, CHR 0x73,
     CHR 0x3A, CHR 0x2F, CHR 0x2F, CHR 0x67, CHR 0x69, CHR 0x74, CHR 0x68, CHR 0x75, CHR 0x62, CHR 0x2E,
     CHR 0x63, CHR 0x6F, CHR 0x6D, CHR 0x2F, CHR 0x79, CHR 0x61, CHR 0x6D, CHR 0x61, CHR 0x6D, CHR 0x6F,
     CHR 0x74, CHR 0x6F, CHR 0x39, CHR 0x39, CHR 0x2F, CHR 0x65, CHR 0x73, CHR 0x2D, CHR 0x77, CHR 0x72,
     CHR 0x69, CHR 0x74, CHR 0x65, CHR 0x72, CHR 0x29, CHR 0xE5, CHR 0xB0, CHR 0x86, CHR 0xE6, CHR 0x9D,
     CHR 0xA5, CHR 0xE7, CHR 0x9A, CHR 0x84, CHR 0xE3, CHR 0x81, CHR 0xAB, CHR 0xE3, CHR 0x81, CHR 0xAF,
     CHR 0xE3, CHR 0x82, CHR 0xA8, CHR 0xE3, CHR 0x83, CHR 0xB3, CHR 0xE3, CHR 0x82, CHR 0xB8, CHR 0xE3,
     CHR 0x83, CHR 0x8B, CHR 0xE3, CHR 0x82, CHR 0xA2, CHR 0xE3, CHR 0x81, CHR 0xA8, CHR 0xE3, CHR 0x81,
     CHR 0x97, CHR 0xE3, CHR 0x81, CHR 0xA6, CHR 0xE3, CHR 0x81, CHR 0x95, CHR 0xE3, CHR 0x81, CHR 0xBE,
     CHR 0xE3, CHR 0x81, CHR 0x96, CHR 0xE3, CHR 0x81, CHR 0xBE, CHR 0xE3, CHR 0x81, CHR 0xAA, CHR 0xE9,
     CHR 0x96, CHR 0x8B, CHR 0xE7, CHR 0x99, CHR 0xBA, CHR 0xE3, CHR 0x81, CHR 0xAB, CHR 0xE6, CHR 0x90,
     CHR 0xBA, CHR 0xE3, CHR 0x82, CHR 0x8F, CHR 0xE3, CHR 0x82, CHR 0x8A, CHR 0xE3, CHR 0x81, CHR 0x9F,
     CHR 0xE3, CHR 0x81, CHR 0x84, CHR 0xE3, CHR 0x80, CHR 0x82, CHR 0xE6, CHR 0x99, CHR 0xAE, CHR 0xE6,
     CHR 0xAE, CHR 0xB5, CHR 0xE3, CHR 0x81, CHR 0xAF, CHR 0x34, CHR 0x32, CHR 0x54, CHR 0x6F, CHR 0x6B,
     CHR 0x79, CHR 0x6F, CHR 0xE3, CHR 0x81, CHR 0xAB, CHR 0xE9, CHR 0x80, CHR 0x9A, CHR 0xE3, CHR 0x81,
     CHR 0xA3, CHR 0xE3, CHR 0x81, CHR 0xA6, CHR 0xE3, CHR 0x81, CHR 0x8A, CHR 0xE3, CHR 0x82, CHR 0x8A,
     CHR 0xE3, CHR 0x80, CHR 0x81, CHR 0x43, CHR 0xE3, CHR 0x82, CHR 0x84, CHR 0x47, CHR 0x6F, CHR 0xE3,
     CHR 0x82, CHR 0x92, CHR 0xE5, CHR 0xAD, CHR 0xA6, CHR 0xE3, CHR 0x82, CHR 0x93, CHR 0xE3, CHR 0x81,
     CHR 0xA7, CHR 0xE3, CHR 0x81, CHR 0x84, CHR 0xE3, CHR 0x82, CHR 0x8B, CHR 0xE3, CHR 0x80, CHR 0x82]"

definition processQuestionsWithAI_bedrock :: "env \<Rightarrow> nat list \<Rightarrow> Request \<Rightarrow> outcome" where
  "processQuestionsWithAI_bedrock E sched r =
     (let w0 = cors new_writer in
      if Method r = ''OPTIONS'' then \<lparr>w = WriteHeader w0 StatusOK, returns = Some 0, final = idle\<rparr>
      else
     (case json_Decode E (Body r) of
        Inl err \<Rightarrow>
          \<lparr>w = http_Error w0 ''Bad request'' StatusBadRequest, returns = Some 0,
           final = idle\<lparr>logged := [''Error decoding request body: '' @ Error err]\<rparr>\<rparr>
      | Inr req \<Rightarrow>
     (let cleanHtml = cleanHTMLContent E (Html req);
          lg = [''Cleaned HTML: '' @ cleanHtml];
          questions = extractQuestions E cleanHtml
      in
      if length questions = 0
      then \<lparr>w = http_Error w0 ''No questions found'' StatusBadRequest, returns = Some 0,
            final = idle\<lparr>logged := lg @ [''No questions found in the HTML content'']\<rparr>\<rparr>
      else
     (let ctx = WithTimeout Background (30 * Second);
          s0 = \<lparr>answers = replicate (length questions) \<lparr>Question = [], Answer = []\<rparr>,
                wg = int (length (spawn questions)), clock = 0, sent = [], logged = lg,
                writes = []\<rparr>;
          client = (\<lambda>k q. sendToAi_bedrock E (network E k) 0 ctx
                              (generatePromptWithBio_bedrock bio q))
      in respond (run client (spawn questions) sched s0) w0))))"

section \<open>Reading a run\<close>

text \<open>
  The array in the body of a response, when the body is one encoded array; the text the
  completion client returned, when it returned one; whether it came back at all.
\<close>

definition response :: "outcome \<Rightarrow> Answer list option" where
  "response out = (case written (w out) of [Encoded xs] \<Rightarrow> Some xs | _ \<Rightarrow> None)"

fun completed :: "(error + string) timed \<times> Request list \<Rightarrow> string option" where
  "completed (At t (Inr a), out) = Some a"
| "completed (At t (Inl e), out) = None"
| "completed (Never, out) = None"

fun finished :: "(error + string) timed \<times> Request list \<Rightarrow> nat option" where
  "finished (At t x, out) = Some t"
| "finished (Never, out) = None"

text \<open>
  The call \<open>sendToAi(ctx, prompt)\<close> of goroutine \<open>k\<close> of the first handler for the question
  \<open>q\<close>, under the handler's context (lines 182, 200 and 201), and the same call of the
  second handler (lines 391, 409 and 410).
\<close>

definition call :: "env \<Rightarrow> UserProfile \<Rightarrow> nat \<Rightarrow> string \<Rightarrow> (error + string) timed \<times> Request list" where
  "call E profile k q =
     sendToAi E (network E k) 0 (WithTimeout Background (30 * Second))
       (generatePromptWithBio profile q)"

definition call_bedrock :: "env \<Rightarrow> nat \<Rightarrow> string \<Rightarrow> (error + string) timed \<times> Request list" where
  "call_bedrock E k q =
     sendToAi_bedrock E (network E k) 0 (WithTimeout Background (30 * Second))
       (generatePromptWithBio_bedrock bio q)"

section \<open>Stand-ins for the collaborators\<close>

text \<open>
  A test double for every parameter: the token resolves to \<open>u1\<close>, the profile is found,
  the body is taken as the HTML itself and its lines are the questions, the codecs wrap
  and unwrap a text, and \<open>replies k\<close> is what the provider does with the call of
  goroutine \<open>k\<close>.
\<close>

fun lines_of :: "string \<Rightarrow> string \<Rightarrow> string list" where
  "lines_of acc [] = (if acc = [] then [] else [acc])"
| "lines_of acc (c # cs) = (if c = CHR 0x0A then acc # lines_of [] cs else lines_of (acc @ [c]) cs)"

definition stub :: "(nat \<Rightarrow> Reply) \<Rightarrow> env" where
  "stub replies =
     \<lparr>apiKey = ''key'',
      getValueFromToken = (\<lambda>r claim. Inr ''u1''),
      QueryRow_Scan = (\<lambda>q args. Inr \<lparr>Bio = ''b'', Experience = ''e'', Projects = ''p''\<rparr>),
      cleanHTMLContent = (\<lambda>html. html),
      extractQuestions = lines_of [],
      json_Decode = (\<lambda>body. Inr \<lparr>Html = body\<rparr>),
      json_Marshal = (\<lambda>a. Inr (Text (Parts (Contents a ! 0) ! 0))),
      json_Unmarshal = (\<lambda>body. Inr \<lparr>Candidates = [\<lparr>Content = \<lparr>Parts = [\<lparr>Text = body\<rparr>]\<rparr>\<rparr>]\<rparr>),
      url_Parse = (\<lambda>url. None),
      network = (\<lambda>k req. replies k),
      Getenv = (\<lambda>name. ''secret''),
      LoadDefaultConfig = (\<lambda>ctx region creds. Inr \<lparr>Region = region, Credentials = creds\<rparr>),
      json_Marshal_Claude = (\<lambda>c. Inr (Prompt c)),
      json_Unmarshal_Claude = (\<lambda>body. Inr \<lparr>Completion = body\<rparr>)\<rparr>"

definition post :: "string \<Rightarrow> Request" where
  "post body = \<lparr>Method = ''POST'', URL = ''/getAnswers'', Header = [], Body = body, Ctx = Background\<rparr>"

definition answers_after :: "nat \<Rightarrow> string \<Rightarrow> Reply" where
  "answers_after l text = \<lparr>latency = Some l, outcome = Inr \<lparr>StatusCode = 200, ReadAll = Inr text\<rparr>\<rparr>"

definition refuses_after :: "nat \<Rightarrow> Reply" where
  "refuses_after l = \<lparr>latency = Some l, outcome = Inl (errorString ''connection refused'')\<rparr>"

definition silent :: Reply where
  "silent = \<lparr>latency = None, outcome = Inl (errorString ''no reply'')\<rparr>"

text \<open>
  The state in which the fan-out starts (lines 190 to 197): one empty \<open>Answer\<close> per question
  from \<open>make\<close>, the counter at the number of goroutines, the log lines written so far.
\<close>

definition start :: "string list \<Rightarrow> string list \<Rightarrow> fanout" where
  "start questions lg =
     \<lparr>answers = replicate (length questions) \<lparr>Question = [], Answer = []\<rparr>,
      wg = int (length (spawn questions)), clock = 0, sent = [], logged = lg, writes = []\<rparr>"

subsection \<open>Scenarios\<close>

text \<open>
  A form with three questions; a provider that refuses the second call and answers the
  others with OK; one that refuses every call; one that answers after forty seconds; one
  that never answers; a token that does not resolve; a profile store without the user,
  behind a body that is not JSON either; a body that is not JSON; and a caller without
  token or profile in front of a provider that answers every call with OK.
\<close>

definition three_questions :: string where
  "three_questions = ''Name?'' @ [CHR 0x0A] @ ''Why this company?'' @ [CHR 0x0A] @ ''Strengths?''"

definition demo_profile :: UserProfile where
  "demo_profile = \<lparr>Bio = ''b'', Experience = ''e'', Projects = ''p''\<rparr>"

definition second_fails :: env where
  "second_fails = stub (\<lambda>k. if k = 1 then refuses_after 3 else answers_after 5 ''OK'')"

definition all_refuse :: env where
  "all_refuse = stub (\<lambda>k. refuses_after 3)"

definition slow :: env where
  "slow = stub (\<lambda>k. answers_after 40000 ''late'')"

definition mute :: env where
  "mute = stub (\<lambda>k. silent)"

definition no_token :: env where
  "no_token = (stub (\<lambda>k. silent))\<lparr>getValueFromToken := (\<lambda>r claim. Inl (errorString ''no cookie''))\<rparr>"

definition no_profile :: env where
  "no_profile = (stub (\<lambda>k. silent))\<lparr>QueryRow_Scan := (\<lambda>q args. Inl (errorString ''sql: no rows in result set'')),
                                     json_Decode := (\<lambda>body. Inl (errorString ''unexpected EOF''))\<rparr>"

definition no_json :: env where
  "no_json = (stub (\<lambda>k. silent))\<lparr>json_Decode := (\<lambda>body. Inl (errorString ''unexpected EOF''))\<rparr>"

definition anonymous :: env where
  "anonymous = (stub (\<lambda>k. answers_after 5 ''OK''))
       \<lparr>getValueFromToken := (\<lambda>r claim. Inl (errorString ''no cookie'')),
        QueryRow_Scan := (\<lambda>q args. Inl (errorString ''sql: no rows in result set''))\<rparr>"

subsection \<open>The goroutines, step by step\<close>

text \<open>
  The same goroutines with their statements interleaved. A goroutine is in its call to
  \<open>sendToAi\<close>, back from it with a result at an instant, past its \<open>if\<close> and about to run the
  deferred \<open>wg.Done\<close>, in a call that never returns, or at its end. One step is one
  statement of one goroutine: the call comes back (or is known never to), the error is
  logged, the slot is assigned, \<open>wg.Done\<close> runs.
\<close>

datatype pc = Calling | Back nat "error + string" | Leaving nat | Hung | Ended

inductive step :: "(nat \<Rightarrow> string \<Rightarrow> (error + string) timed \<times> Request list) \<Rightarrow> (nat \<times> string) list
    \<Rightarrow> pc list \<times> fanout \<Rightarrow> pc list \<times> fanout \<Rightarrow> bool"
  for client spawned where
  comes_back:
    "k < length pcs \<Longrightarrow> pcs ! k = Calling \<Longrightarrow> client k (snd (spawned ! k)) = (At t x, out) \<Longrightarrow>
     step client spawned (pcs, s) (pcs[k := Back t x], s\<lparr>sent := sent s @ out\<rparr>)"
| hangs:
    "k < length pcs \<Longrightarrow> pcs ! k = Calling \<Longrightarrow> client k (snd (spawned ! k)) = (Never, out) \<Longrightarrow>
     step client spawned (pcs, s) (pcs[k := Hung], s\<lparr>sent := sent s @ out\<rparr>)"
| fails:
    "k < length pcs \<Longrightarrow> pcs ! k = Back t (Inl err) \<Longrightarrow>
     step client spawned (pcs, s)
       (pcs[k := Leaving t], s\<lparr>logged := logged s @ [''Error sending to AI: '' @ Error err]\<rparr>)"
| stores:
    "k < length pcs \<Longrightarrow> pcs ! k = Back t (Inr answer) \<Longrightarrow>
     step client spawned (pcs, s)
       (pcs[k := Leaving t],
        s\<lparr>answers := (answers s)[fst (spawned ! k) := \<lparr>Question = snd (spawned ! k), Answer = answer\<rparr>],
          writes := writes s @ [(k, fst (spawned ! k))]\<rparr>)"
| leaves:
    "k < length pcs \<Longrightarrow> pcs ! k = Leaving t \<Longrightarrow>
     step client spawned (pcs, s) (pcs[k := Ended], s\<lparr>wg := wg s - 1, clock := max (clock s) t\<rparr>)"

text \<open>
  What holds in every state the goroutines can reach: a goroutine \<open>stored\<close> once it is past
  the assignment; the value \<open>slot\<close> its slot then has; \<open>consistent\<close>, the relation between
  where the goroutines are and the shared state; \<open>timely\<close>, what the clock records; and
  \<open>terminal\<close>, the states in which no goroutine has a step left. \<open>ends\<close> gives where the
  goroutines are when they have run one after the other.
\<close>

fun stored :: "pc \<Rightarrow> bool" where
  "stored (Leaving t) = True"
| "stored Ended = True"
| "stored p = False"

definition slot :: "(nat \<Rightarrow> string \<Rightarrow> (error + string) timed \<times> Request list) \<Rightarrow> string list \<Rightarrow> nat \<Rightarrow> Answer" where
  "slot c qs i =
     (case completed (c i (qs ! i)) of
        Some t \<Rightarrow> \<lparr>Question = qs ! i, Answer = t\<rparr>
      | None \<Rightarrow> \<lparr>Question = [], Answer = []\<rparr>)"

definition consistent :: "(nat \<Rightarrow> string \<Rightarrow> (error + string) timed \<times> Request list) \<Rightarrow> string list \<Rightarrow> pc list \<times> fanout \<Rightarrow> bool" where
  "consistent c qs cf =
     (case cf of (pcs, s) \<Rightarrow>
        length pcs = length qs \<and> length (answers s) = length qs
      \<and> (\<forall>k \<in> {..<length qs}.
            (case pcs ! k of
               Back t x \<Rightarrow> fst (c k (qs ! k)) = At t x
             | Leaving t \<Rightarrow> finished (c k (qs ! k)) = Some t
             | Hung \<Rightarrow> finished (c k (qs ! k)) = None
             | _ \<Rightarrow> True)
          \<and> answers s ! k =
              (if stored (pcs ! k) then slot c qs k else \<lparr>Question = [], Answer = []\<rparr>))
      \<and> wg s = (\<Sum>p\<leftarrow>pcs. if p = Ended then 0 else 1)
      \<and> (\<forall>p \<in> set (writes s). fst p = snd p \<and> snd p < length qs \<and> stored (pcs ! snd p))
      \<and> distinct (writes s))"

definition timely :: "(nat \<Rightarrow> string \<Rightarrow> (error + string) timed \<times> Request list) \<Rightarrow> string list \<Rightarrow> pc list \<times> fanout \<Rightarrow> bool" where
  "timely c qs cf =
     (case cf of (pcs, s) \<Rightarrow>
        (\<forall>k \<in> {..<length qs}.
            pcs ! k = Ended \<longrightarrow>
              (case finished (c k (qs ! k)) of Some t \<Rightarrow> t \<le> clock s | None \<Rightarrow> False))
      \<and> (clock s = 0
          \<or> (\<exists>k \<in> {..<length qs}. pcs ! k = Ended \<and> finished (c k (qs ! k)) = Some (clock s))))"

definition terminal :: "pc list \<Rightarrow> bool" where
  "terminal pcs = list_all (\<lambda>p. p = Ended \<or> p = Hung) pcs"

definition rest :: "(error + string) timed \<times> Request list \<Rightarrow> pc" where
  "rest r = (if finished r = None then Hung else Ended)"

fun ends :: "(nat \<Rightarrow> string \<Rightarrow> (error + string) timed \<times> Request list) \<Rightarrow> (nat \<times> string) list \<Rightarrow> nat list \<Rightarrow> pc list \<Rightarrow> pc list" where
  "ends c sp [] pcs = pcs"
| "ends c sp (k # ks) pcs = ends c sp ks (pcs[k := rest (c k (snd (sp ! k)))])"

section \<open>The fan-out, goroutine by goroutine\<close>

lemma run_Nil: "run c sp [] s = s"
  by (simp add: run_def)

lemma run_Cons:
  "run c sp (k # ks) s =
     run c sp ks (if k < length sp then settle k (sp ! k) (c k (snd (sp ! k))) s else s)"
  by (simp add: run_def)

lemma length_answers_settle: "length (answers (settle k a r s)) = length (answers s)"
  by (cases a; cases r rule: completed.cases) simp_all

lemma answers_settle:
  "i < length (answers s) \<Longrightarrow>
   answers (settle k a r s) ! i =
     (if fst a = i
      then (case completed r of Some t \<Rightarrow> \<lparr>Question = snd a, Answer = t\<rparr> | None \<Rightarrow> answers s ! i)
      else answers s ! i)"
  by (cases a; cases r rule: completed.cases) simp_all

lemma length_answers_run: "length (answers (run c sp sched s)) = length (answers s)"
  by (induction sched arbitrary: s) (simp_all add: run_Nil run_Cons length_answers_settle)

lemma length_spawn: "length (spawn qs) = length qs"
  by (simp add: spawn_def)

lemma nth_spawn: "k < length qs \<Longrightarrow> spawn qs ! k = (k, qs ! k)"
  by (simp add: spawn_def)

lemma answers_run:
  "i < length (answers s) \<Longrightarrow>
   answers (run c (spawn qs) sched s) ! i =
     (if i \<in> set sched \<and> i < length qs
      then (case completed (c i (qs ! i)) of
              Some t \<Rightarrow> \<lparr>Question = qs ! i, Answer = t\<rparr>
            | None \<Rightarrow> answers s ! i)
      else answers s ! i)"
proof (induction sched arbitrary: s)
  case Nil
  then show ?case by (simp add: run_Nil)
next
  case (Cons k ks)
  let ?s = "if k < length (spawn qs) then settle k (spawn qs ! k) (c k (snd (spawn qs ! k))) s else s"
  have len: "i < length (answers ?s)"
    using Cons.prems by (simp add: length_answers_settle)
  have one: "answers ?s ! i =
     (if k = i \<and> i < length qs
      then (case completed (c i (qs ! i)) of
              Some t \<Rightarrow> \<lparr>Question = qs ! i, Answer = t\<rparr>
            | None \<Rightarrow> answers s ! i)
      else answers s ! i)"
    using Cons.prems by (auto simp add: answers_settle length_spawn nth_spawn split: option.splits)
  show ?case
    unfolding run_Cons Cons.IH [OF len] one
    by (auto split: option.splits)
qed

lemma wg_settle:
  "wg (settle k a r s) = wg s - (if finished r = None then 0 else 1)"
  by (cases a; cases r rule: completed.cases) simp_all

lemma wg_run:
  "wg (run c sp sched s) =
     wg s - int (length (filter (\<lambda>k. k < length sp \<and> finished (c k (snd (sp ! k))) \<noteq> None) sched))"
  by (induction sched arbitrary: s) (simp_all add: run_Nil run_Cons wg_settle)

lemma length_schedule: "schedule n sched \<Longrightarrow> length sched = n"
  unfolding schedule_def using distinct_card [of sched] by simp

lemma writes_settle:
  "writes (settle k a r s) = writes s @ (if completed r = None then [] else [(k, fst a)])"
  by (cases a; cases r rule: completed.cases) simp_all

lemma writes_run:
  "writes (run c sp sched s) =
     writes s @ map (\<lambda>k. (k, fst (sp ! k)))
                    (filter (\<lambda>k. k < length sp \<and> completed (c k (snd (sp ! k))) \<noteq> None) sched)"
  by (induction sched arbitrary: s) (simp_all add: run_Nil run_Cons writes_settle)

lemma sent_settle: "sent (settle k a r s) = sent s @ snd r"
  by (cases a; cases r rule: completed.cases) simp_all

lemma sent_run:
  "sent (run c sp sched s) =
     sent s @ concat (map (\<lambda>k. snd (c k (snd (sp ! k)))) (filter (\<lambda>k. k < length sp) sched))"
  by (induction sched arbitrary: s) (simp_all add: run_Nil run_Cons sent_settle)

lemma clock_settle:
  "clock (settle k a r s) = (case finished r of None \<Rightarrow> clock s | Some t \<Rightarrow> max (clock s) t)"
  by (cases a; cases r rule: completed.cases) simp_all

lemma clock_run_upper:
  "clock s \<le> b \<Longrightarrow>
   (\<And>k t. k \<in> set sched \<Longrightarrow> k < length sp \<Longrightarrow> finished (c k (snd (sp ! k))) = Some t \<Longrightarrow> t \<le> b) \<Longrightarrow>
   clock (run c sp sched s) \<le> b"
proof (induction sched arbitrary: s)
  case Nil
  then show ?case by (simp add: run_Nil)
next
  case (Cons k ks)
  show ?case
    unfolding run_Cons
  proof (rule Cons.IH)
    show "clock (if k < length sp then settle k (sp ! k) (c k (snd (sp ! k))) s else s) \<le> b"
      using Cons.prems(1) Cons.prems(2) [of k]
      by (auto simp add: clock_settle split: option.splits)
  next
    fix j t
    assume "j \<in> set ks" "j < length sp" "finished (c j (snd (sp ! j))) = Some t"
    then show "t \<le> b" using Cons.prems(2) [of j t] by simp
  qed
qed

lemma clock_run_mono: "clock s \<le> clock (run c sp sched s)"
proof (induction sched arbitrary: s)
  case Nil
  then show ?case by (simp add: run_Nil)
next
  case (Cons k ks)
  have "clock s \<le> clock (if k < length sp then settle k (sp ! k) (c k (snd (sp ! k))) s else s)"
    by (auto simp add: clock_settle split: option.splits)
  also have "\<dots> \<le> clock (run c sp (k # ks) s)"
    unfolding run_Cons by (rule Cons.IH)
  finally show ?case .
qed

lemma clock_run_lower:
  "k \<in> set sched \<Longrightarrow> k < length sp \<Longrightarrow> finished (c k (snd (sp ! k))) = Some t \<Longrightarrow>
   t \<le> clock (run c sp sched s)"
proof (induction sched arbitrary: s)
  case Nil
  then show ?case by simp
next
  case (Cons j js)
  let ?s = "if j < length sp then settle j (sp ! j) (c j (snd (sp ! j))) s else s"
  show ?case
  proof (cases "k = j")
    case True
    have "t \<le> clock ?s"
      using Cons.prems True by (simp add: clock_settle)
    also have "\<dots> \<le> clock (run c sp js ?s)" by (rule clock_run_mono)
    finally show ?thesis by (simp add: run_Cons)
  next
    case False
    then have "k \<in> set js" using Cons.prems by simp
    then show ?thesis
      unfolding run_Cons using Cons.IH Cons.prems by blast
  qed
qed


section \<open>The first client under a deadline\<close>

lemma RoundTrip_deadline:
  "Deadline ctx = Some d \<Longrightarrow>
   \<exists>t x. fst (RoundTrip net now ctx req) = At t x \<and> t \<le> max now d"
  by (auto simp add: RoundTrip_def expired_def split: option.splits)

lemma RoundTrip_expired:
  "expired ctx now \<Longrightarrow> RoundTrip net now ctx req = (At now (Inl DeadlineExceeded), [])"
  by (simp add: RoundTrip_def)

lemma sendToAi_returns:
  assumes "Deadline ctx = Some d"
  shows "\<exists>t. finished (sendToAi E net now ctx q) = Some t \<and> t \<le> max now d"
proof -
  have rt: "\<And>req. \<exists>t x. fst (RoundTrip net now ctx req) = At t x \<and> t \<le> max now d"
    using assms by (rule RoundTrip_deadline)
  show ?thesis
  proof (cases "json_Marshal E \<lparr>Contents = [\<lparr>Parts = [\<lparr>Text = q\<rparr>]\<rparr>]\<rparr>")
    case (Inl e)
    then show ?thesis by (simp add: sendToAi_def)
  next
    case (Inr body)
    show ?thesis
    proof (cases "url_Parse E (''https://generativelanguage.googleapis.com/v1/models/gemini-1.5-flash:generateContent?key='' @ apiKey E)")
      case (Some e)
      then show ?thesis using Inr by (simp add: sendToAi_def NewRequestWithContext_def)
    next
      case None
      let ?req = "\<lparr>Method = ''POST'', URL = ''https://generativelanguage.googleapis.com/v1/models/gemini-1.5-flash:generateContent?key='' @ apiKey E,
                    Header = [(''Content-Type'', ''application/json'')], Body = body, Ctx = ctx\<rparr>"
      obtain t x out where r: "RoundTrip net now ctx ?req = (At t x, out)" and le: "t \<le> max now d"
        using rt [of ?req] by (cases "RoundTrip net now ctx ?req") auto
      show ?thesis
        using Inr None r le
        by (simp add: sendToAi_def NewRequestWithContext_def client_Do_def
                 split: sum.splits)
    qed
  qed
qed

lemma sendToAi_expired:
  assumes "expired ctx now"
  shows "snd (sendToAi E net now ctx q) = [] \<and> completed (sendToAi E net now ctx q) = None
         \<and> finished (sendToAi E net now ctx q) = Some now"
  using assms
  by (simp add: sendToAi_def NewRequestWithContext_def client_Do_def RoundTrip_expired
           split: sum.splits option.splits)

section \<open>The first handler reaches its response\<close>

lemma call_returns: "\<exists>t. finished (call E profile k q) = Some t \<and> t \<le> 30 * Second"
  using sendToAi_returns [of "WithTimeout Background (30 * Second)" "30 * Second" E "network E k" 0
      "generatePromptWithBio profile q"]
  by (simp add: call_def)

lemma wg_run_all:
  assumes "schedule (length sp) sched"
    and "\<And>k. k < length sp \<Longrightarrow> finished (c k (snd (sp ! k))) \<noteq> None"
  shows "wg (run c sp sched s) = wg s - int (length sp)"
proof -
  have "filter (\<lambda>k. k < length sp \<and> finished (c k (snd (sp ! k))) \<noteq> None) sched = sched"
    using assms by (auto simp add: schedule_def filter_id_conv)
  then show ?thesis
    using length_schedule [OF assms(1)] by (simp add: wg_run)
qed

lemma call_eta:
  "(\<lambda>k q. sendToAi E (network E k) 0 (WithTimeout Background (30 * Second))
            (generatePromptWithBio profile q)) = call E profile"
  by (intro ext) (simp add: call_def)

lemma call_bedrock_eta:
  "(\<lambda>k q. sendToAi_bedrock E (network E k) 0 (WithTimeout Background (30 * Second))
            (generatePromptWithBio_bedrock bio q)) = call_bedrock E"
  by (intro ext) (simp add: call_bedrock_def)

lemma reaches_fanout:
  assumes "Method r \<noteq> ''OPTIONS''"
    and "getValueFromToken E r ''sub'' = Inr userID"
    and "getUserProfile E userID = Inr profile"
    and "json_Decode E (Body r) = Inr req"
    and "extractQuestions E (cleanHTMLContent E (Html req)) = questions"
    and "questions \<noteq> []"
  shows "processQuestionsWithAI E sched r =
           respond (run (call E profile) (spawn questions) sched
                      (start questions [''Cleaned HTML: '' @ cleanHTMLContent E (Html req)]))
                   (cors new_writer)"
  using assms by (simp add: processQuestionsWithAI_def Let_def start_def call_eta)

lemma reaches_fanout_bedrock:
  assumes "Method r \<noteq> ''OPTIONS''"
    and "json_Decode E (Body r) = Inr req"
    and "extractQuestions E (cleanHTMLContent E (Html req)) = questions"
    and "questions \<noteq> []"
  shows "processQuestionsWithAI_bedrock E sched r =
           respond (run (call_bedrock E) (spawn questions) sched
                      (start questions [''Cleaned HTML: '' @ cleanHTMLContent E (Html req)]))
                   (cors new_writer)"
  using assms by (simp add: processQuestionsWithAI_bedrock_def Let_def start_def call_bedrock_eta)

lemma status_cors: "status (cors new_writer) = None" and written_cors: "written (cors new_writer) = []"
  by (simp_all add: cors_def new_writer_def Header_Set_def)

lemma respond_done:
  assumes "wg s = 0"
  shows "respond s (cors new_writer) =
           \<lparr>w = Write (Header_Set (cors new_writer) ''Content-Type'' ''application/json'') (Encoded (answers s)),
            returns = Some (clock s), final = s\<rparr>"
  using assms by (simp add: respond_def Wait_def)

lemma respond_response:
  assumes "wg s = 0"
  shows "response (respond s (cors new_writer)) = Some (answers s)"
    and "status (w (respond s (cors new_writer))) = Some 200"
    and "returns (respond s (cors new_writer)) = Some (clock s)"
    and "final (respond s (cors new_writer)) = s"
  using assms
  by (simp_all add: respond_done response_def Write_def WriteHeader_def Header_Set_def
        status_cors written_cors Let_def)

lemma respond_hung:
  assumes "wg s \<noteq> 0"
  shows "returns (respond s w0) = None" and "w (respond s w0) = w0" and "final (respond s w0) = s"
  using assms by (simp_all add: respond_def Wait_def)

text \<open>The first handler: every goroutine finishes, so the wait ends.\<close>

lemma fanout_done:
  assumes "schedule (length questions) sched"
  shows "wg (run (call E profile) (spawn questions) sched (start questions lg)) = 0"
proof -
  have fin: "\<And>k. k < length (spawn questions) \<Longrightarrow>
      finished (call E profile k (snd (spawn questions ! k))) \<noteq> None"
    using call_returns by (metis option.distinct(1))
  have "schedule (length (spawn questions)) sched"
    using assms by (simp add: length_spawn)
  from wg_run_all [OF this, of "call E profile", OF fin]
  show ?thesis by (simp add: start_def)
qed

lemma slots:
  assumes "i < length questions" and "schedule (length questions) sched"
  shows "answers (run c (spawn questions) sched (start questions lg)) ! i =
           (case completed (c i (questions ! i)) of
              Some t \<Rightarrow> \<lparr>Question = questions ! i, Answer = t\<rparr>
            | None \<Rightarrow> \<lparr>Question = [], Answer = []\<rparr>)"
proof -
  have "i < length (answers (start questions lg))"
    using assms by (simp add: start_def)
  moreover have "i \<in> set sched"
    using assms by (simp add: schedule_def)
  moreover have "answers (start questions lg) ! i = \<lparr>Question = [], Answer = []\<rparr>"
    using assms by (simp add: start_def)
  ultimately show ?thesis
    using assms(1) by (simp add: answers_run split: option.splits)
qed

lemma length_slots:
  "length (answers (run c sp sched (start questions lg))) = length questions"
  by (simp add: length_answers_run start_def)

lemma first_handler_result:
  assumes "Method r \<noteq> ''OPTIONS''"
    and "getValueFromToken E r ''sub'' = Inr userID"
    and "getUserProfile E userID = Inr profile"
    and "json_Decode E (Body r) = Inr req"
    and "extractQuestions E (cleanHTMLContent E (Html req)) = questions"
    and "questions \<noteq> []"
    and "schedule (length questions) sched"
  defines "s \<equiv> run (call E profile) (spawn questions) sched
                  (start questions [''Cleaned HTML: '' @ cleanHTMLContent E (Html req)])"
  shows "response (processQuestionsWithAI E sched r) = Some (answers s)"
    and "status (w (processQuestionsWithAI E sched r)) = Some 200"
    and "returns (processQuestionsWithAI E sched r) = Some (clock s)"
    and "final (processQuestionsWithAI E sched r) = s"
    and "wg s = 0"
proof -
  have eq: "processQuestionsWithAI E sched r = respond s (cors new_writer)"
    unfolding s_def using assms(1-6) by (rule reaches_fanout)
  show zero: "wg s = 0"
    unfolding s_def using assms(7) by (rule fanout_done)
  show "response (processQuestionsWithAI E sched r) = Some (answers s)"
    and "status (w (processQuestionsWithAI E sched r)) = Some 200"
    and "returns (processQuestionsWithAI E sched r) = Some (clock s)"
    and "final (processQuestionsWithAI E sched r) = s"
    unfolding eq using respond_response [OF zero] by simp_all
qed

subsection \<open>The early returns\<close>

lemma status_http_Error: "status (http_Error (cors new_writer) msg code) = Some code"
  by (simp add: http_Error_def Write_def WriteHeader_def Header_Set_def status_cors cors_def
        new_writer_def Let_def)

lemma written_http_Error:
  "written (http_Error (cors new_writer) msg code) = [Plain (msg @ [CHR 0x0A])]"
  by (simp add: http_Error_def Write_def WriteHeader_def Header_Set_def cors_def
        new_writer_def Let_def)

subsection \<open>The writes to the slots\<close>

lemma map_fst_spawn: "map fst (spawn questions) = [0..<length questions]"
  by (simp add: spawn_def)

lemma writes_first_handler:
  "writes (run c (spawn questions) sched (start questions lg)) =
     map (\<lambda>k. (k, k))
       (filter (\<lambda>k. k < length questions \<and> completed (c k (questions ! k)) \<noteq> None) sched)"
proof -
  have "map (\<lambda>k. (k, fst (spawn questions ! k)))
          (filter (\<lambda>k. k < length (spawn questions) \<and> completed (c k (snd (spawn questions ! k))) \<noteq> None) sched)
        = map (\<lambda>k. (k, k))
          (filter (\<lambda>k. k < length questions \<and> completed (c k (questions ! k)) \<noteq> None) sched)"
    by (induction sched) (auto simp add: length_spawn nth_spawn)
  then show ?thesis
    by (simp add: writes_run start_def)
qed

section \<open>The scenarios, evaluated\<close>

lemma stub_simps:
  "getValueFromToken (stub f) r c = Inr ''u1''"
  "getUserProfile (stub f) u = Inr \<lparr>Bio = ''b'', Experience = ''e'', Projects = ''p''\<rparr>"
  "json_Decode (stub f) body = Inr \<lparr>Html = body\<rparr>"
  "cleanHTMLContent (stub f) html = html"
  "extractQuestions (stub f) html = lines_of [] html"
  "network (stub f) k = (\<lambda>req. f k)"
  by (simp_all add: stub_def getUserProfile_def)

lemma Method_post: "Method (post body) \<noteq> ''OPTIONS''" and Body_post: "Body (post body) = body"
  by (simp_all add: post_def)

lemma call_stub_answers:
  assumes "f k = answers_after l text" and "l < 30000"
  shows "completed (call (stub f) profile k q) = Some text"
    and "finished (call (stub f) profile k q) = Some l"
  using assms
  by (simp_all add: call_def sendToAi_def stub_def NewRequestWithContext_def client_Do_def
        RoundTrip_def expired_def Second_def answers_after_def)

lemma call_stub_refuses:
  assumes "f k = refuses_after l" and "l < 30000"
  shows "completed (call (stub f) profile k q) = None"
    and "finished (call (stub f) profile k q) = Some l"
  using assms
  by (simp_all add: call_def sendToAi_def stub_def NewRequestWithContext_def client_Do_def
        RoundTrip_def expired_def Second_def refuses_after_def)

lemma lines_three:
  "lines_of [] three_questions = [''Name?'', ''Why this company?'', ''Strengths?'']"
  by (simp add: three_questions_def)

lemma schedule_201: "schedule 3 [2, 0, 1]"
  by code_simp

lemma schedule_0: "schedule 1 [0]"
  by code_simp

lemma schedule_three: "schedule (length [''Name?'', ''Why this company?'', ''Strengths?'']) [2, 0, 1]"
proof -
  have "length [''Name?'', ''Why this company?'', ''Strengths?''] = 3" by simp
  then show ?thesis by (simp only: schedule_201)
qed

lemma second_fails_facts:
  "Method (post three_questions) \<noteq> ''OPTIONS''"
  "getValueFromToken second_fails (post three_questions) ''sub'' = Inr ''u1''"
  "getUserProfile second_fails ''u1'' = Inr demo_profile"
  "json_Decode second_fails (Body (post three_questions)) = Inr \<lparr>Html = three_questions\<rparr>"
  "extractQuestions second_fails (cleanHTMLContent second_fails (Html \<lparr>Html = three_questions\<rparr>))
     = [''Name?'', ''Why this company?'', ''Strengths?'']"
  "[''Name?'', ''Why this company?'', ''Strengths?''] \<noteq> []"
  by (simp_all add: second_fails_def stub_simps Method_post Body_post lines_three demo_profile_def)

lemmas second_fails_run = second_fails_facts schedule_three

lemma second_fails_call:
  "completed (call second_fails profile k q) = (if k = 1 then None else Some ''OK'')"
  "finished (call second_fails profile k q) = Some (if k = 1 then 3 else 5)"
  by (simp_all add: second_fails_def call_stub_answers call_stub_refuses)

lemma second_fails_calls:
  "completed (call second_fails profile 0 q) = Some ''OK''"
  "completed (call second_fails profile 1 q) = None"
  "completed (call second_fails profile 2 q) = Some ''OK''"
  "finished (call second_fails profile 0 q) = Some 5"
  "finished (call second_fails profile 1 q) = Some 3"
  "finished (call second_fails profile 2 q) = Some 5"
  by (simp_all add: second_fails_call)

lemma no_token_facts:
  "getValueFromToken no_token r ''sub'' = Inl (errorString ''no cookie'')"
  by (simp add: no_token_def stub_def)

lemma no_profile_facts:
  "getValueFromToken no_profile r ''sub'' = Inr ''u1''"
  "getUserProfile no_profile ''u1'' = Inl (errorString (profile_failed @ ''sql: no rows in result set''))"
  "json_Decode no_profile body = Inl (errorString ''unexpected EOF'')"
  by (simp_all add: no_profile_def stub_def getUserProfile_def)

lemma no_json_facts:
  "getValueFromToken no_json r ''sub'' = Inr ''u1''"
  "getUserProfile no_json ''u1'' = Inr demo_profile"
  "json_Decode no_json body = Inl (errorString ''unexpected EOF'')"
  by (simp_all add: no_json_def stub_def getUserProfile_def demo_profile_def)

section \<open>Deadlines\<close>

lemma schedule_upt: "schedule n [0..<n]"
  by (auto simp add: schedule_def)

lemma RoundTrip_late:
  assumes "Deadline ctx = Some d"
    and "case latency (net req) of None \<Rightarrow> True | Some l \<Rightarrow> d \<le> now + l"
  shows "\<exists>t out. RoundTrip net now ctx req = (At t (Inl DeadlineExceeded), out) \<and> t \<le> max now d"
  using assms by (auto simp add: RoundTrip_def expired_def split: option.splits)

lemma call_late:
  assumes "\<And>req. case latency (network E k req) of None \<Rightarrow> True | Some l \<Rightarrow> 30 * Second \<le> l"
  shows "completed (call E profile k q) = None"
proof -
  have rt: "\<exists>t out. RoundTrip (network E k) 0 (WithTimeout Background (30 * Second)) req
                  = (At t (Inl DeadlineExceeded), out) \<and> t \<le> max 0 (30 * Second)" for req
    using assms [of req] by (intro RoundTrip_late) (simp_all split: option.splits)
  show ?thesis
  proof (cases "json_Marshal E \<lparr>Contents = [\<lparr>Parts = [\<lparr>Text = generatePromptWithBio profile q\<rparr>]\<rparr>]\<rparr>")
    case (Inl e)
    then show ?thesis by (simp add: call_def sendToAi_def)
  next
    case (Inr body)
    show ?thesis
    proof (cases "url_Parse E (''https://generativelanguage.googleapis.com/v1/models/gemini-1.5-flash:generateContent?key='' @ apiKey E)")
      case (Some e)
      then show ?thesis using Inr by (simp add: call_def sendToAi_def NewRequestWithContext_def)
    next
      case None
      let ?req = "\<lparr>Method = ''POST'', URL = ''https://generativelanguage.googleapis.com/v1/models/gemini-1.5-flash:generateContent?key='' @ apiKey E,
                    Header = [(''Content-Type'', ''application/json'')], Body = body,
                    Ctx = WithTimeout Background (30 * Second)\<rparr>"
      obtain t out where "RoundTrip (network E k) 0 (WithTimeout Background (30 * Second)) ?req
                  = (At t (Inl DeadlineExceeded), out)"
        using rt [of ?req] by blast
      then show ?thesis
        using Inr None
        by (simp add: call_def sendToAi_def NewRequestWithContext_def client_Do_def)
    qed
  qed
qed

lemma first_handler_by_deadline:
  "clock (run (call E profile) sp sched (start questions lg)) \<le> 30 * Second"
proof (rule clock_run_upper)
  show "clock (start questions lg) \<le> 30 * Second" by (simp add: start_def)
next
  fix k t
  assume "finished (call E profile k (snd (sp ! k))) = Some t"
  then show "t \<le> 30 * Second"
    using call_returns [of E profile k "snd (sp ! k)"] by simp
qed

lemma first_handler_all_late:
  assumes "Method r \<noteq> ''OPTIONS''"
    and "getValueFromToken E r ''sub'' = Inr userID"
    and "getUserProfile E userID = Inr profile"
    and "json_Decode E (Body r) = Inr req"
    and "extractQuestions E (cleanHTMLContent E (Html req)) = questions"
    and "questions \<noteq> []"
    and "schedule (length questions) sched"
    and "\<And>k req. case latency (network E k req) of None \<Rightarrow> True | Some l \<Rightarrow> 30 * Second \<le> l"
  shows "\<exists>t. returns (processQuestionsWithAI E sched r) = Some t \<and> t \<le> 30 * Second"
    and "response (processQuestionsWithAI E sched r)
           = Some (replicate (length questions) \<lparr>Question = [], Answer = []\<rparr>)"
proof -
  let ?s = "run (call E profile) (spawn questions) sched
              (start questions [''Cleaned HTML: '' @ cleanHTMLContent E (Html req)])"
  note res = first_handler_result [OF assms(1-7)]
  show "\<exists>t. returns (processQuestionsWithAI E sched r) = Some t \<and> t \<le> 30 * Second"
    using res(3) first_handler_by_deadline by simp
  have "answers ?s ! i = \<lparr>Question = [], Answer = []\<rparr>" if "i < length questions" for i
    using slots [OF that assms(7), of "call E profile"] call_late [OF assms(8)]
    by simp
  then have "answers ?s = replicate (length questions) \<lparr>Question = [], Answer = []\<rparr>"
    by (intro nth_equalityI) (simp_all add: length_slots)
  then show "response (processQuestionsWithAI E sched r)
           = Some (replicate (length questions) \<lparr>Question = [], Answer = []\<rparr>)"
    using res(1) by simp
qed

lemma sendToAi_bedrock_context:
  assumes "LoadDefaultConfig E ctx = LoadDefaultConfig E ctx'"
  shows "sendToAi_bedrock E net now ctx q = sendToAi_bedrock E net now ctx' q"
  using assms by (simp add: sendToAi_bedrock_def)

section \<open>Every interleaving\<close>

text \<open>
  Whatever the order in which the statements of the goroutines interleave, the handler's
  response is the one \<open>run\<close> computes under any schedule; and \<open>run\<close> is itself one of the
  interleavings.
\<close>

lemma consistent_iff:
  "consistent c qs (pcs, s) \<longleftrightarrow>
        length pcs = length qs \<and> length (answers s) = length qs
      \<and> (\<forall>k < length qs. \<forall>t x. pcs ! k = Back t x \<longrightarrow> fst (c k (qs ! k)) = At t x)
      \<and> (\<forall>k < length qs. \<forall>t. pcs ! k = Leaving t \<longrightarrow> finished (c k (qs ! k)) = Some t)
      \<and> (\<forall>k < length qs. pcs ! k = Hung \<longrightarrow> finished (c k (qs ! k)) = None)
      \<and> (\<forall>k < length qs. answers s ! k =
            (if stored (pcs ! k) then slot c qs k else \<lparr>Question = [], Answer = []\<rparr>))
      \<and> wg s = (\<Sum>p\<leftarrow>pcs. if p = Ended then 0 else 1)
      \<and> (\<forall>p \<in> set (writes s). fst p = snd p \<and> snd p < length qs \<and> stored (pcs ! snd p))
      \<and> distinct (writes s)"
proof -
  have one: "(case p of
               Back t x \<Rightarrow> fst r = At t x
             | Leaving t \<Rightarrow> finished r = Some t
             | Hung \<Rightarrow> finished r = None
             | _ \<Rightarrow> True)
      \<longleftrightarrow> (\<forall>t x. p = Back t x \<longrightarrow> fst r = At t x)
        \<and> (\<forall>t. p = Leaving t \<longrightarrow> finished r = Some t)
        \<and> (p = Hung \<longrightarrow> finished r = None)" for p and r :: "(error + string) timed \<times> Request list"
    by (cases p) simp_all
  show ?thesis
    unfolding consistent_def prod.case one Ball_def lessThan_iff
    by (simp only: imp_conjR all_conj_distrib conj_assoc)
qed

lemma timely_iff:
  "timely c qs (pcs, s) \<longleftrightarrow>
        (\<forall>k < length qs. pcs ! k = Ended \<longrightarrow>
            (\<exists>t. finished (c k (qs ! k)) = Some t \<and> t \<le> clock s))
      \<and> (clock s = 0 \<or> (\<exists>k < length qs. pcs ! k = Ended \<and> finished (c k (qs ! k)) = Some (clock s)))"
proof -
  have one: "(case r of Some t \<Rightarrow> t \<le> b | None \<Rightarrow> False) \<longleftrightarrow> (\<exists>t. r = Some t \<and> t \<le> b)"
    for r :: "nat option" and b
    by (cases r) simp_all
  show ?thesis
    unfolding timely_def prod.case one Ball_def Bex_def lessThan_iff
    by (rule refl)
qed

lemma consistent_start: "consistent c qs (replicate (length qs) Calling, start qs lg)"
  by (simp add: consistent_iff start_def length_spawn sum_list_replicate)

lemma timely_start: "timely c qs (replicate (length qs) Calling, start qs lg)"
  by (simp add: timely_iff start_def)

lemma sum_list_pcs_update:
  fixes f :: "pc \<Rightarrow> int"
  assumes "k < length pcs"
  shows "(\<Sum>p\<leftarrow>pcs[k := x]. f p) = (\<Sum>p\<leftarrow>pcs. f p) + f x - f (pcs ! k)"
  using assms by (induction pcs arbitrary: k) (auto split: nat.splits)

lemma consistent_step:
  assumes "step c (spawn qs) cf cf'" and "consistent c qs cf"
  shows "consistent c qs cf'"
  using assms
proof (induction rule: step.induct)
  case (comes_back k pcs t x out s)
  then show ?case
    by (auto simp add: consistent_iff nth_list_update nth_spawn sum_list_pcs_update)
next
  case (hangs k pcs out s)
  then show ?case
    by (auto simp add: consistent_iff nth_list_update nth_spawn sum_list_pcs_update)
next
  case (fails k pcs t err s)
  then have r: "fst (c k (qs ! k)) = At t (Inl err)"
    by (auto simp add: consistent_iff)
  then have none: "completed (c k (qs ! k)) = None" and fin: "finished (c k (qs ! k)) = Some t"
    by (cases "c k (qs ! k)" rule: completed.cases; simp)+
  from fails show ?case
    by (auto simp add: consistent_iff nth_list_update sum_list_pcs_update slot_def none fin)
next
  case (stores k pcs t answer s)
  then have r: "fst (c k (qs ! k)) = At t (Inr answer)"
    by (auto simp add: consistent_iff)
  then have some: "completed (c k (qs ! k)) = Some answer" and fin: "finished (c k (qs ! k)) = Some t"
    by (cases "c k (qs ! k)" rule: completed.cases; simp)+
  from stores have k: "k < length qs" and sp: "spawn qs ! k = (k, qs ! k)"
    by (auto simp add: consistent_iff nth_spawn)
  from stores have fresh: "(k, k) \<notin> set (writes s)"
    by (fastforce simp add: consistent_iff)
  from stores k fresh show ?case
    by (auto simp add: consistent_iff nth_list_update sum_list_pcs_update slot_def some fin sp)
next
  case (leaves k pcs t s)
  then show ?case
    by (auto simp add: consistent_iff nth_list_update sum_list_pcs_update)
qed

lemma ended_update:
  assumes "pcs ! k \<noteq> Ended" and "p \<noteq> Ended"
  shows "(pcs[k := p] ! j = Ended) = (pcs ! j = Ended)"
  using assms by (cases "k < length pcs") (auto simp add: nth_list_update list_update_beyond)

lemma timely_step:
  assumes "step c (spawn qs) cf cf'" and "consistent c qs cf" and "timely c qs cf"
  shows "timely c qs cf'"
  using assms
proof (induction rule: step.induct)
  case (comes_back k pcs t x out s)
  then show ?case by (simp add: timely_iff ended_update)
next
  case (hangs k pcs out s)
  then show ?case by (simp add: timely_iff ended_update)
next
  case (fails k pcs t err s)
  then show ?case by (simp add: timely_iff ended_update)
next
  case (stores k pcs t answer s)
  then show ?case by (simp add: timely_iff ended_update)
next
  case (leaves k pcs t s)
  then have k: "k < length qs" and fin: "finished (c k (qs ! k)) = Some t"
    and len: "length pcs = length qs"
    by (auto simp add: consistent_iff)
  have old: "\<forall>j < length qs. pcs ! j = Ended \<longrightarrow>
            (\<exists>u. finished (c j (qs ! j)) = Some u \<and> u \<le> clock s)"
    and top: "clock s = 0 \<or> (\<exists>j < length qs. pcs ! j = Ended \<and> finished (c j (qs ! j)) = Some (clock s))"
    using leaves.prems(2) by (simp_all add: timely_iff)
  have a: "\<exists>u. finished (c j (qs ! j)) = Some u \<and> u \<le> max (clock s) t"
    if j: "j < length qs" and e: "pcs[k := Ended] ! j = Ended" for j
  proof (cases "j = k")
    case True
    then show ?thesis using fin by simp
  next
    case False
    then have "pcs ! j = Ended" using e by simp
    then obtain u where "finished (c j (qs ! j)) = Some u" "u \<le> clock s"
      using old j by blast
    then show ?thesis by (auto simp add: max_def)
  qed
  have b: "max (clock s) t = 0 \<or>
       (\<exists>j < length qs. pcs[k := Ended] ! j = Ended \<and> finished (c j (qs ! j)) = Some (max (clock s) t))"
  proof (cases "clock s \<le> t")
    case True
    then have "max (clock s) t = t" by simp
    then show ?thesis using k fin len by (auto simp add: nth_list_update)
  next
    case False
    then have m: "max (clock s) t = clock s" and pos: "clock s \<noteq> 0" by simp_all
    from top pos obtain j where j: "j < length qs" "pcs ! j = Ended"
      "finished (c j (qs ! j)) = Some (clock s)"
      by blast
    then have "pcs[k := Ended] ! j = Ended"
      using len k by (simp add: nth_list_update)
    then show ?thesis unfolding m using j by blast
  qed
  show ?case
    using a b by (simp add: timely_iff)
qed

lemma reachable_invariants:
  assumes "(step c (spawn qs))\<^sup>*\<^sup>* (replicate (length qs) Calling, start qs lg) cf"
  shows "consistent c qs cf \<and> timely c qs cf"
  using assms
  by (induction rule: rtranclp_induct)
     (auto intro: consistent_start timely_start consistent_step timely_step)

lemma completed_None: "finished r = None \<Longrightarrow> completed r = None"
  by (cases r rule: completed.cases) simp_all

lemma waiting_nonneg: "0 \<le> (\<Sum>p\<leftarrow>pcs. if p = Ended then 0 else (1::int))"
  by (induction pcs) simp_all

lemma waiting_zero: "(\<Sum>p\<leftarrow>pcs. if p = Ended then 0 else (1::int)) = 0 \<longleftrightarrow> (\<forall>p \<in> set pcs. p = Ended)"
proof (induction pcs)
  case Nil
  then show ?case by simp
next
  case (Cons p pcs)
  then show ?case using waiting_nonneg [of pcs] by auto
qed

lemma wg_run_zero:
  assumes "schedule (length qs) sched"
  shows "wg (run c (spawn qs) sched (start qs lg)) = 0
           \<longleftrightarrow> (\<forall>k < length qs. finished (c k (qs ! k)) \<noteq> None)"
proof -
  let ?P = "\<lambda>k. k < length (spawn qs) \<and> finished (c k (snd (spawn qs ! k))) \<noteq> None"
  have len: "length sched = length qs"
    using assms by (rule length_schedule)
  have mem: "k \<in> set sched \<longleftrightarrow> k < length qs" for k
    using assms by (simp add: schedule_def)
  have P: "?P k \<longleftrightarrow> finished (c k (qs ! k)) \<noteq> None" if "k < length qs" for k
    using that by (simp add: length_spawn nth_spawn)
  have wg: "wg (run c (spawn qs) sched (start qs lg)) = int (length qs) - int (length (filter ?P sched))"
    by (simp add: wg_run start_def length_spawn)
  show ?thesis
  proof
    assume "wg (run c (spawn qs) sched (start qs lg)) = 0"
    then have full: "length (filter ?P sched) = length sched"
      using wg len by simp
    show "\<forall>k < length qs. finished (c k (qs ! k)) \<noteq> None"
    proof (intro allI impI)
      fix k assume k: "k < length qs"
      show "finished (c k (qs ! k)) \<noteq> None"
      proof (rule ccontr)
        assume "\<not> finished (c k (qs ! k)) \<noteq> None"
        then have "\<not> ?P k" using P [OF k] by simp
        moreover have "k \<in> set sched" using k by (simp add: mem)
        ultimately have "length (filter ?P sched) < length sched"
          by (rule length_filter_less [rotated])
        then show False using full by simp
      qed
    qed
  next
    assume all: "\<forall>k < length qs. finished (c k (qs ! k)) \<noteq> None"
    have "filter ?P sched = sched"
      using all by (auto simp add: filter_id_conv mem length_spawn nth_spawn)
    then show "wg (run c (spawn qs) sched (start qs lg)) = 0"
      using wg len by simp
  qed
qed

lemma clock_run_max:
  assumes "schedule (length qs) sched"
    and "\<And>k. k < length qs \<Longrightarrow> \<exists>t. finished (c k (qs ! k)) = Some t \<and> t \<le> b"
    and "b = 0 \<or> (\<exists>k < length qs. finished (c k (qs ! k)) = Some b)"
  shows "clock (run c (spawn qs) sched (start qs lg)) = b"
proof (rule antisym)
  show "clock (run c (spawn qs) sched (start qs lg)) \<le> b"
  proof (rule clock_run_upper)
    show "clock (start qs lg) \<le> b" by (simp add: start_def)
  next
    fix k t
    assume "k < length (spawn qs)" "finished (c k (snd (spawn qs ! k))) = Some t"
    then show "t \<le> b"
      using assms(2) [of k] by (auto simp add: length_spawn nth_spawn)
  qed
next
  from assms(3) show "b \<le> clock (run c (spawn qs) sched (start qs lg))"
  proof
    assume "b = 0"
    then show ?thesis by simp
  next
    assume "\<exists>k < length qs. finished (c k (qs ! k)) = Some b"
    then obtain k where k: "k < length qs" "finished (c k (qs ! k)) = Some b" by blast
    have "k \<in> set sched" using assms(1) k(1) by (simp add: schedule_def)
    then show ?thesis
      using clock_run_lower [of k sched "spawn qs" c b "start qs lg"] k
      by (simp add: length_spawn nth_spawn)
  qed
qed

theorem every_interleaving_same_response:
  assumes "(step c (spawn qs))\<^sup>*\<^sup>* (replicate (length qs) Calling, start qs lg) (pcs, s)"
    and "terminal pcs"
    and "schedule (length qs) sched"
  shows "answers s = answers (run c (spawn qs) sched (start qs lg))
       \<and> respond s w0 = (respond (run c (spawn qs) sched (start qs lg)) w0)\<lparr>final := s\<rparr>"
proof -
  let ?r = "run c (spawn qs) sched (start qs lg)"
  from reachable_invariants [OF assms(1)]
  have con: "consistent c qs (pcs, s)" and tim: "timely c qs (pcs, s)" by simp_all
  have len: "length pcs = length qs" "length (answers s) = length qs"
    using con by (simp_all add: consistent_iff)
  have rests: "pcs ! k = Ended \<or> pcs ! k = Hung" if "k < length qs" for k
    using assms(2) that len by (simp add: terminal_def list_all_length)
  have hung: "finished (c k (qs ! k)) = None" if "k < length qs" "pcs ! k = Hung" for k
    using con that by (simp add: consistent_iff)
  have ended: "\<exists>t. finished (c k (qs ! k)) = Some t \<and> t \<le> clock s"
    if "k < length qs" "pcs ! k = Ended" for k
    using tim that by (simp add: timely_iff)
  have slot: "answers s ! k = slot c qs k" if "k < length qs" for k
  proof -
    have "answers s ! k = (if stored (pcs ! k) then slot c qs k else \<lparr>Question = [], Answer = []\<rparr>)"
      using con that by (simp add: consistent_iff)
    then show ?thesis
      using rests [OF that] hung [OF that] by (auto simp add: slot_def completed_None)
  qed
  have ans: "answers s = answers ?r"
  proof (rule nth_equalityI)
    show "length (answers s) = length (answers ?r)"
      using len by (simp add: length_slots)
  next
    fix i assume "i < length (answers s)"
    then have i: "i < length qs" using len by simp
    show "answers s ! i = answers ?r ! i"
      using slot [OF i] slots [OF i assms(3), of c lg] by (simp add: slot_def)
  qed
  have all_ended: "wg s = 0 \<longleftrightarrow> (\<forall>k < length qs. pcs ! k = Ended)"
    using con len by (simp add: consistent_iff waiting_zero all_set_conv_all_nth)
  have all_back: "(\<forall>k < length qs. pcs ! k = Ended) \<longleftrightarrow> (\<forall>k < length qs. finished (c k (qs ! k)) \<noteq> None)"
    using rests hung ended by (metis option.distinct(1))
  have wgs: "wg s = 0 \<longleftrightarrow> wg ?r = 0"
    using all_ended all_back wg_run_zero [OF assms(3)] by simp
  have clk: "clock ?r = clock s" if "wg s = 0"
  proof (rule clock_run_max [OF assms(3)])
    fix k assume "k < length qs"
    then show "\<exists>t. finished (c k (qs ! k)) = Some t \<and> t \<le> clock s"
      using that all_ended ended by simp
  next
    show "clock s = 0 \<or> (\<exists>k<length qs. finished (c k (qs ! k)) = Some (clock s))"
      using tim by (auto simp add: timely_iff)
  qed
  have "respond s w0 = (respond ?r w0)\<lparr>final := s\<rparr>"
    using wgs clk ans by (cases "wg s = 0") (simp_all add: respond_def Wait_def)
  then show ?thesis using ans by simp
qed

lemma settle_steps:
  assumes "k < length pcs" and "pcs ! k = Calling"
  shows "(step c sp)\<^sup>*\<^sup>* (pcs, s)
           (pcs[k := rest (c k (snd (sp ! k)))], settle k (sp ! k) (c k (snd (sp ! k))) s)"
proof (cases "c k (snd (sp ! k))" rule: completed.cases)
  case (3 out)
  have "step c sp (pcs, s) (pcs[k := Hung], s\<lparr>sent := sent s @ out\<rparr>)"
    using assms 3 by (rule hangs)
  then show ?thesis
    using 3 by (cases "sp ! k") (simp add: rest_def)
next
  case (2 t e out)
  have a: "step c sp (pcs, s) (pcs[k := Back t (Inl e)], s\<lparr>sent := sent s @ out\<rparr>)"
    using assms 2 by (rule comes_back)
  have b: "step c sp (pcs[k := Back t (Inl e)], s\<lparr>sent := sent s @ out\<rparr>)
             (pcs[k := Back t (Inl e), k := Leaving t],
              s\<lparr>sent := sent s @ out\<rparr>\<lparr>logged := logged (s\<lparr>sent := sent s @ out\<rparr>)
                   @ [''Error sending to AI: '' @ Error e]\<rparr>)"
    using assms by (intro fails) simp_all
  have c: "step c sp (pcs[k := Back t (Inl e), k := Leaving t],
              s\<lparr>sent := sent s @ out\<rparr>\<lparr>logged := logged (s\<lparr>sent := sent s @ out\<rparr>)
                   @ [''Error sending to AI: '' @ Error e]\<rparr>)
            (pcs[k := Back t (Inl e), k := Leaving t, k := Ended],
             settle k (sp ! k) (c k (snd (sp ! k))) s)"
    using assms 2 leaves [of k "pcs[k := Back t (Inl e), k := Leaving t]" t c sp
        "s\<lparr>sent := sent s @ out\<rparr>\<lparr>logged := logged (s\<lparr>sent := sent s @ out\<rparr>)
                   @ [''Error sending to AI: '' @ Error e]\<rparr>"]
    by (cases "sp ! k") simp
  have "(step c sp)\<^sup>*\<^sup>* (pcs, s) (pcs[k := Back t (Inl e), k := Leaving t, k := Ended],
             settle k (sp ! k) (c k (snd (sp ! k))) s)"
    using a b c by (meson rtranclp.rtrancl_into_rtrancl rtranclp.rtrancl_refl)
  then show ?thesis
    using 2 by (simp add: rest_def)
next
  case (1 t a out)
  have x: "step c sp (pcs, s) (pcs[k := Back t (Inr a)], s\<lparr>sent := sent s @ out\<rparr>)"
    using assms 1 by (rule comes_back)
  let ?s1 = "s\<lparr>sent := sent s @ out\<rparr>"
  let ?s2 = "?s1\<lparr>answers := (answers ?s1)[fst (sp ! k) := \<lparr>Question = snd (sp ! k), Answer = a\<rparr>],
                 writes := writes ?s1 @ [(k, fst (sp ! k))]\<rparr>"
  have y: "step c sp (pcs[k := Back t (Inr a)], ?s1) (pcs[k := Back t (Inr a), k := Leaving t], ?s2)"
    using assms by (intro stores) simp_all
  have z: "step c sp (pcs[k := Back t (Inr a), k := Leaving t], ?s2)
            (pcs[k := Back t (Inr a), k := Leaving t, k := Ended],
             settle k (sp ! k) (c k (snd (sp ! k))) s)"
    using assms 1 leaves [of k "pcs[k := Back t (Inr a), k := Leaving t]" t c sp ?s2]
    by (cases "sp ! k") simp
  have "(step c sp)\<^sup>*\<^sup>* (pcs, s) (pcs[k := Back t (Inr a), k := Leaving t, k := Ended],
             settle k (sp ! k) (c k (snd (sp ! k))) s)"
    using x y z by (meson rtranclp.rtrancl_into_rtrancl rtranclp.rtrancl_refl)
  then show ?thesis
    using 1 by (simp add: rest_def)
qed

lemma run_reachable:
  assumes "distinct sched" and "\<forall>k \<in> set sched. k < length pcs \<and> pcs ! k = Calling"
    and "length pcs = length sp"
  shows "(step c sp)\<^sup>*\<^sup>* (pcs, s) (ends c sp sched pcs, run c sp sched s)"
  using assms
proof (induction sched arbitrary: pcs s)
  case Nil
  then show ?case by (simp add: run_Nil)
next
  case (Cons k ks)
  let ?pcs = "pcs[k := rest (c k (snd (sp ! k)))]"
  let ?s = "settle k (sp ! k) (c k (snd (sp ! k))) s"
  have k: "k < length pcs" "pcs ! k = Calling" using Cons.prems(2) by simp_all
  have one: "(step c sp)\<^sup>*\<^sup>* (pcs, s) (?pcs, ?s)"
    using k by (rule settle_steps)
  have "(step c sp)\<^sup>*\<^sup>* (?pcs, ?s) (ends c sp ks ?pcs, run c sp ks ?s)"
  proof (rule Cons.IH)
    show "distinct ks" using Cons.prems(1) by simp
    show "\<forall>j \<in> set ks. j < length ?pcs \<and> ?pcs ! j = Calling"
      using Cons.prems(1,2) by (auto simp add: nth_list_update)
    show "length ?pcs = length sp" using Cons.prems(3) by simp
  qed
  with one have "(step c sp)\<^sup>*\<^sup>* (pcs, s) (ends c sp ks ?pcs, run c sp ks ?s)"
    by (rule rtranclp_trans)
  then show ?case
    using k Cons.prems(3) by (simp add: run_Cons)
qed

lemma ends_nth:
  assumes "distinct sched" and "j < length pcs"
  shows "ends c sp sched pcs ! j =
           (if j \<in> set sched then rest (c j (snd (sp ! j))) else pcs ! j)"
  using assms
proof (induction sched arbitrary: pcs)
  case Nil
  then show ?case by simp
next
  case (Cons k ks)
  then show ?case by (auto simp add: nth_list_update)
qed

lemma length_ends: "length (ends c sp sched pcs) = length pcs"
  by (induction sched arbitrary: pcs) simp_all

lemma schedule_reaches_terminal:
  assumes "schedule (length qs) sched"
  shows "(step c (spawn qs))\<^sup>*\<^sup>* (replicate (length qs) Calling, start qs lg)
           (ends c (spawn qs) sched (replicate (length qs) Calling),
            run c (spawn qs) sched (start qs lg))"
    and "terminal (ends c (spawn qs) sched (replicate (length qs) Calling))"
proof -
  have d: "distinct sched" and mem: "\<And>k. k \<in> set sched \<longleftrightarrow> k < length qs"
    using assms by (simp_all add: schedule_def)
  show "(step c (spawn qs))\<^sup>*\<^sup>* (replicate (length qs) Calling, start qs lg)
           (ends c (spawn qs) sched (replicate (length qs) Calling),
            run c (spawn qs) sched (start qs lg))"
    using d by (intro run_reachable) (simp_all add: mem length_spawn)
  show "terminal (ends c (spawn qs) sched (replicate (length qs) Calling))"
    by (simp add: terminal_def list_all_length length_ends ends_nth [OF d] mem rest_def)
qed

text \<open>So the response does not depend on the schedule.\<close>

lemma schedule_irrelevant:
  assumes "schedule (length qs) sched" and "schedule (length qs) sched'"
  shows "answers (run c (spawn qs) sched (start qs lg)) = answers (run c (spawn qs) sched' (start qs lg))"
    and "w (respond (run c (spawn qs) sched (start qs lg)) w0)
           = w (respond (run c (spawn qs) sched' (start qs lg)) w0)"
    and "returns (respond (run c (spawn qs) sched (start qs lg)) w0)
           = returns (respond (run c (spawn qs) sched' (start qs lg)) w0)"
proof -
  note r1 = schedule_reaches_terminal(1) [OF assms(1), of c lg]
  note r2 = schedule_reaches_terminal(2) [OF assms(1), of c]
  note e = every_interleaving_same_response [OF r1 r2 assms(2), of w0]
  show "answers (run c (spawn qs) sched (start qs lg)) = answers (run c (spawn qs) sched' (start qs lg))"
    using e by simp
  have eq: "respond (run c (spawn qs) sched (start qs lg)) w0
          = (respond (run c (spawn qs) sched' (start qs lg)) w0)
              \<lparr>final := run c (spawn qs) sched (start qs lg)\<rparr>"
    using e by simp
  show "w (respond (run c (spawn qs) sched (start qs lg)) w0)
           = w (respond (run c (spawn qs) sched' (start qs lg)) w0)"
    and "returns (respond (run c (spawn qs) sched (start qs lg)) w0)
           = returns (respond (run c (spawn qs) sched' (start qs lg)) w0)"
    using arg_cong [OF eq, of w] arg_cong [OF eq, of returns] by simp_all
qed

section \<open>The second handler waits for every call\<close>

text \<open>
  The second \<open>sendToAi\<close> gives \<open>InvokeModel\<close> the context \<open>context.TODO()\<close>, which has no
  deadline: once the configuration is loaded and the body marshalled, the call ends when
  the provider answers and not before, whatever the caller's context; and the second
  handler returns only when every call has ended, however late.
\<close>

lemma RoundTrip_no_deadline:
  assumes "Deadline ctx = None"
  shows "fst (RoundTrip net now ctx req) =
           (case latency (net req) of None \<Rightarrow> Never | Some l \<Rightarrow> At (now + l) (outcome (net req)))"
    and "snd (RoundTrip net now ctx req) = [req]"
  using assms by (simp_all add: RoundTrip_def expired_def split: option.splits)

lemma sendToAi_bedrock_waits:
  assumes "LoadDefaultConfig E ctx ''us-west-2''
             (Getenv E ''AWS_ACCESS_KEY_ID'', Getenv E ''AWS_SECRET_ACCESS_KEY'',
              Getenv E ''AWS_SESSION_TOKEN'') = Inr cfg"
    and "json_Marshal_Claude E
           \<lparr>Prompt = ''Human: '' @ question @ [CHR 0x0A, CHR 0x0A] @ ''Assistant:'',
            MaxTokensToSample = 1000, Temperature = 2 / 10, StopSequences = [stop_sequence]\<rparr>
         = Inr reqBody"
  shows "finished (sendToAi_bedrock E net now ctx question) =
           map_option (\<lambda>l. now + l)
             (latency (net \<lparr>Method = ''POST'',
                URL = ''https://bedrock-runtime.'' @ Region cfg @ ''.amazonaws.com/model/''
                      @ ''anthropic.claude-v2'' @ ''/invoke'',
                Header = [(''Content-Type'', ''application/json'')],
                Body = reqBody, Ctx = TODO\<rparr>))"
proof -
  let ?req = "\<lparr>Method = ''POST'',
                URL = ''https://bedrock-runtime.'' @ Region cfg @ ''.amazonaws.com/model/''
                      @ ''anthropic.claude-v2'' @ ''/invoke'',
                Header = [(''Content-Type'', ''application/json'')],
                Body = reqBody, Ctx = TODO\<rparr>"
  have d: "Deadline TODO = None" by simp
  show ?thesis
  proof (cases "latency (net ?req)")
    case None
    then have "RoundTrip net now TODO ?req = (Never, [?req])"
      using RoundTrip_no_deadline [OF d, of net now ?req] by (simp add: prod_eq_iff)
    then show ?thesis
      using assms None by (simp add: sendToAi_bedrock_def InvokeModel_def)
  next
    case (Some l)
    then have "RoundTrip net now TODO ?req = (At (now + l) (outcome (net ?req)), [?req])"
      using RoundTrip_no_deadline [OF d, of net now ?req] by (simp add: prod_eq_iff)
    then show ?thesis
      using assms Some
      by (simp add: sendToAi_bedrock_def InvokeModel_def split: sum.splits)
  qed
qed

lemma second_handler_result:
  assumes "Method r \<noteq> ''OPTIONS''"
    and "json_Decode E (Body r) = Inr req"
    and "extractQuestions E (cleanHTMLContent E (Html req)) = questions"
    and "questions \<noteq> []"
    and "schedule (length questions) sched"
  shows "returns (processQuestionsWithAI_bedrock E sched r) = None
           \<longleftrightarrow> (\<exists>k < length questions. finished (call_bedrock E k (questions ! k)) = None)"
    and "returns (processQuestionsWithAI_bedrock E sched r) = Some t \<Longrightarrow> k < length questions \<Longrightarrow>
         \<exists>u. finished (call_bedrock E k (questions ! k)) = Some u \<and> u \<le> t"
proof -
  let ?s = "run (call_bedrock E) (spawn questions) sched
              (start questions [''Cleaned HTML: '' @ cleanHTMLContent E (Html req)])"
  have eq: "processQuestionsWithAI_bedrock E sched r = respond ?s (cors new_writer)"
    using assms(1-4) by (rule reaches_fanout_bedrock)
  have zero: "wg ?s = 0 \<longleftrightarrow> (\<forall>k < length questions. finished (call_bedrock E k (questions ! k)) \<noteq> None)"
    using assms(5) by (rule wg_run_zero)
  show "returns (processQuestionsWithAI_bedrock E sched r) = None
           \<longleftrightarrow> (\<exists>k < length questions. finished (call_bedrock E k (questions ! k)) = None)"
    unfolding eq using zero by (auto simp add: respond_def Wait_def)
  show "\<exists>u. finished (call_bedrock E k (questions ! k)) = Some u \<and> u \<le> t"
    if "returns (processQuestionsWithAI_bedrock E sched r) = Some t" "k < length questions"
  proof -
    from that(1) have w: "wg ?s = 0" and t: "t = clock ?s"
      unfolding eq by (auto simp add: respond_def Wait_def split: if_splits)
    from w zero that(2) obtain u where u: "finished (call_bedrock E k (questions ! k)) = Some u"
      by auto
    have "k \<in> set sched" using assms(5) that(2) by (simp add: schedule_def)
    then have "u \<le> clock ?s"
      using clock_run_lower [of k sched "spawn questions" "call_bedrock E" u] that(2) u
      by (simp add: length_spawn nth_spawn)
    then show ?thesis using u t by simp
  qed
qed

text \<open>
  The second handler never calls \<open>getValueFromToken\<close> or \<open>getUserProfile\<close>: its run is the
  same whatever they would return.
\<close>

lemma sendToAi_bedrock_identity_free:
  "sendToAi_bedrock (E\<lparr>getValueFromToken := g, QueryRow_Scan := q\<rparr>) = sendToAi_bedrock E"
  by (intro ext) (simp add: sendToAi_bedrock_def Let_def split: sum.splits prod.splits timed.splits)

lemma second_handler_identity_free:
  "processQuestionsWithAI_bedrock (E\<lparr>getValueFromToken := g, QueryRow_Scan := q\<rparr>) sched r
     = processQuestionsWithAI_bedrock E sched r"
  by (simp add: processQuestionsWithAI_bedrock_def sendToAi_bedrock_identity_free Let_def
        split: sum.splits)

section \<open>The claims\<close>

text \<open>
  Claim C1 as it is stated fails. One question, \<open>Name?\<close>, and a provider that refuses the
  call: the goroutine logs the error and returns before the only assignment to its slot
  (lines 202 to 206), so the slot keeps the zero value \<open>make\<close> gave it, and the question
  field of the response is the empty string, not the extracted question.
\<close>

theorem question_lost_on_failure:
  "extractQuestions all_refuse (cleanHTMLContent all_refuse ''Name?'') = [''Name?'']
   \<and> response (processQuestionsWithAI all_refuse [0] (post ''Name?''))
       = Some [\<lparr>Question = [], Answer = []\<rparr>]
   \<and> Question (the (response (processQuestionsWithAI all_refuse [0] (post ''Name?''))) ! 0)
       \<noteq> extractQuestions all_refuse (cleanHTMLContent all_refuse ''Name?'') ! 0"
  by (simp add: all_refuse_def stub_def processQuestionsWithAI_def getUserProfile_def post_def
        Let_def spawn_def run_def respond_def Wait_def response_def Write_def
        WriteHeader_def Header_Set_def cors_def new_writer_def
        sendToAi_def NewRequestWithContext_def client_Do_def RoundTrip_def expired_def
        Second_def refuses_after_def)

text \<open>
  Claim C1, amended: for every request that reaches the fan-out, under every schedule and at
  every index \<open>i\<close> of the extracted questions, the question field of the \<open>i\<close>-th element of
  the response is the \<open>i\<close>-th extracted question when the completion call of that index
  returned a text, and the empty string when it did not.
\<close>

theorem question_kept_on_success:
  assumes "Method r \<noteq> ''OPTIONS''"
    and "getValueFromToken E r ''sub'' = Inr userID"
    and "getUserProfile E userID = Inr profile"
    and "json_Decode E (Body r) = Inr req"
    and "extractQuestions E (cleanHTMLContent E (Html req)) = questions"
    and "questions \<noteq> []"
    and "schedule (length questions) sched"
    and "i < length questions"
  shows "\<exists>xs. response (processQuestionsWithAI E sched r) = Some xs
              \<and> Question (xs ! i) =
                  (if completed (call E profile i (questions ! i)) = None then []
                   else questions ! i)"
  using first_handler_result(1) [OF assms(1-7)] slots [OF assms(8,7)]
  by (auto split: option.splits)

text \<open>
  The amended claim C1 at work: three questions, the second call refused.
\<close>

theorem question_kept_on_success_witness:
  "completed (call second_fails demo_profile 2 ''Strengths?'') = Some ''OK''
   \<and> completed (call second_fails demo_profile 1 ''Why this company?'') = None
   \<and> (\<exists>xs. response (processQuestionsWithAI second_fails [2, 0, 1] (post three_questions)) = Some xs
            \<and> Question (xs ! 2) = ''Strengths?'' \<and> Question (xs ! 1) = [])"
proof -
  have "\<exists>xs. response (processQuestionsWithAI second_fails [2, 0, 1] (post three_questions)) = Some xs
            \<and> Question (xs ! 2) = ''Strengths?'' \<and> Question (xs ! 1) = []"
    using question_kept_on_success [OF second_fails_run, of 2]
          question_kept_on_success [OF second_fails_run, of 1]
    by (auto simp add: second_fails_call)
  then show ?thesis
    using second_fails_calls(3) [of demo_profile "''Strengths?''"]
          second_fails_calls(2) [of demo_profile "''Why this company?''"] by blast
qed

text \<open>
  Claim C2: for every request that passes identity resolution, profile lookup and body
  decoding and extracts at least one question, the response body is one encoded array
  with as many elements as there are extracted questions, under every schedule and
  whatever the provider does. (An \<open>OPTIONS\<close> request is answered before any of these
  steps.)
\<close>

theorem response_length:
  assumes "Method r \<noteq> ''OPTIONS''"
    and "getValueFromToken E r ''sub'' = Inr userID"
    and "getUserProfile E userID = Inr profile"
    and "json_Decode E (Body r) = Inr req"
    and "extractQuestions E (cleanHTMLContent E (Html req)) = questions"
    and "questions \<noteq> []"
    and "schedule (length questions) sched"
  shows "\<exists>xs. response (processQuestionsWithAI E sched r) = Some xs
              \<and> length xs = length questions"
  using first_handler_result(1) [OF assms] by (simp add: length_slots)

text \<open>
  Claim C2 at work: three questions, three elements.
\<close>

theorem response_length_witness:
  "schedule 3 [2, 0, 1]
   \<and> extractQuestions second_fails (cleanHTMLContent second_fails (Html \<lparr>Html = three_questions\<rparr>))
       = [''Name?'', ''Why this company?'', ''Strengths?'']
   \<and> (\<exists>xs. response (processQuestionsWithAI second_fails [2, 0, 1] (post three_questions)) = Some xs
            \<and> length xs = 3)"
proof -
  have "\<exists>xs. response (processQuestionsWithAI second_fails [2, 0, 1] (post three_questions)) = Some xs
            \<and> length xs = 3"
    using response_length [OF second_fails_run] by (simp add: numeral_3_eq_3)
  then show ?thesis
    using schedule_201 second_fails_facts(5) by blast
qed

text \<open>
  Claim C3: if the completion call fails at exactly one index \<open>k\<close> and returns a text at
  every other index, then the answer at \<open>k\<close> is the empty string and every other index
  holds exactly the text its own call returned.
\<close>

theorem one_failure_isolated:
  assumes "Method r \<noteq> ''OPTIONS''"
    and "getValueFromToken E r ''sub'' = Inr userID"
    and "getUserProfile E userID = Inr profile"
    and "json_Decode E (Body r) = Inr req"
    and "extractQuestions E (cleanHTMLContent E (Html req)) = questions"
    and "questions \<noteq> []"
    and "schedule (length questions) sched"
    and "k < length questions"
    and "completed (call E profile k (questions ! k)) = None"
    and "\<forall>i < length questions. i \<noteq> k \<longrightarrow> completed (call E profile i (questions ! i)) \<noteq> None"
  shows "\<exists>xs. response (processQuestionsWithAI E sched r) = Some xs
              \<and> Answer (xs ! k) = []
              \<and> (\<forall>i < length questions. i \<noteq> k \<longrightarrow>
                    completed (call E profile i (questions ! i)) = Some (Answer (xs ! i)))"
proof -
  let ?s = "run (call E profile) (spawn questions) sched
              (start questions [''Cleaned HTML: '' @ cleanHTMLContent E (Html req)])"
  have "Answer (answers ?s ! k) = []"
    using slots [OF assms(8,7)] assms(9) by simp
  moreover have "completed (call E profile i (questions ! i)) = Some (Answer (answers ?s ! i))"
    if "i < length questions" "i \<noteq> k" for i
    using slots [OF that(1) assms(7)] assms(10) that by (auto split: option.splits)
  ultimately show ?thesis
    using first_handler_result(1) [OF assms(1-7)] by simp
qed

text \<open>
  Claim C3 at work: the second of three calls is refused, the first and the third keep
  their answers.
\<close>

theorem one_failure_isolated_witness:
  "completed (call second_fails demo_profile 0 ''Name?'') = Some ''OK''
   \<and> completed (call second_fails demo_profile 1 ''Why this company?'') = None
   \<and> completed (call second_fails demo_profile 2 ''Strengths?'') = Some ''OK''
   \<and> (\<exists>xs. response (processQuestionsWithAI second_fails [2, 0, 1] (post three_questions)) = Some xs
            \<and> Answer (xs ! 0) = ''OK'' \<and> Answer (xs ! 1) = [] \<and> Answer (xs ! 2) = ''OK'')"
proof -
  let ?qs = "[''Name?'', ''Why this company?'', ''Strengths?'']"
  have k: "1 < length ?qs" by simp
  have fails: "completed (call second_fails demo_profile 1 (?qs ! 1)) = None"
    by (rule second_fails_calls(2))
  have others: "\<forall>i < length ?qs.
      i \<noteq> 1 \<longrightarrow> completed (call second_fails demo_profile i (?qs ! i)) \<noteq> None"
    by (simp add: second_fails_call)
  from one_failure_isolated [OF second_fails_run k fails others]
  obtain xs where xs: "response (processQuestionsWithAI second_fails [2, 0, 1] (post three_questions)) = Some xs"
    and one: "Answer (xs ! 1) = []"
    and rest: "\<forall>i<length ?qs. i \<noteq> 1 \<longrightarrow>
                 completed (call second_fails demo_profile i (?qs ! i)) = Some (Answer (xs ! i))"
    by blast
  have "Answer (xs ! 0) = ''OK''"
    using rest [THEN spec, of 0] by (simp add: second_fails_call)
  moreover have "Answer (xs ! 2) = ''OK''"
    using rest [THEN spec, of 2] by (simp add: second_fails_call)
  ultimately have "Answer (xs ! 0) = ''OK''" and "Answer (xs ! 2) = ''OK''"
    by simp_all
  then have "\<exists>xs. response (processQuestionsWithAI second_fails [2, 0, 1] (post three_questions)) = Some xs
            \<and> Answer (xs ! 0) = ''OK'' \<and> Answer (xs ! 1) = [] \<and> Answer (xs ! 2) = ''OK''"
    using xs one by blast
  then show ?thesis
    using second_fails_calls(1) [of demo_profile "''Name?''"]
          second_fails_calls(2) [of demo_profile "''Why this company?''"]
          second_fails_calls(3) [of demo_profile "''Strengths?''"] by blast
qed



text \<open>
  Claim C5: when the HTML of a request yields no question, no request goes to the provider
  and no goroutine is started (the wait group is at zero, no slot exists and none was
  written), and the run is the same whatever the provider would answer and whatever the
  scheduler would do. When the request has also passed the steps that come before the
  extraction (it is not a preflight, its token resolved, its profile was found), the
  response has status 400 with the message \<open>No questions found\<close>.
\<close>

theorem no_questions_no_calls:
  assumes "json_Decode E (Body r) = Inr req"
    and "extractQuestions E (cleanHTMLContent E (Html req)) = []"
  shows "sent (final (processQuestionsWithAI E sched r)) = []
       \<and> wg (final (processQuestionsWithAI E sched r)) = 0
       \<and> writes (final (processQuestionsWithAI E sched r)) = []
       \<and> answers (final (processQuestionsWithAI E sched r)) = []
       \<and> processQuestionsWithAI (E\<lparr>network := net\<rparr>) sched' r = processQuestionsWithAI E sched r
       \<and> (Method r \<noteq> ''OPTIONS'' \<and> getValueFromToken E r ''sub'' = Inr userID
            \<and> getUserProfile E userID = Inr profile \<longrightarrow>
              status (w (processQuestionsWithAI E sched r)) = Some StatusBadRequest
            \<and> written (w (processQuestionsWithAI E sched r))
                = [Plain (''No questions found'' @ [CHR 0x0A])]
            \<and> returns (processQuestionsWithAI E sched r) = Some 0)"
proof -
  have calm: "sent (final (processQuestionsWithAI E sched r)) = []
       \<and> wg (final (processQuestionsWithAI E sched r)) = 0
       \<and> writes (final (processQuestionsWithAI E sched r)) = []
       \<and> answers (final (processQuestionsWithAI E sched r)) = []"
    using assms by (simp add: processQuestionsWithAI_def Let_def idle_def split: sum.splits)
  have same: "processQuestionsWithAI (E\<lparr>network := net\<rparr>) sched' r = processQuestionsWithAI E sched r"
    using assms by (simp add: processQuestionsWithAI_def Let_def getUserProfile_def split: sum.splits)
  have bad: "status (w (processQuestionsWithAI E sched r)) = Some StatusBadRequest
            \<and> written (w (processQuestionsWithAI E sched r))
                = [Plain (''No questions found'' @ [CHR 0x0A])]
            \<and> returns (processQuestionsWithAI E sched r) = Some 0"
    if "Method r \<noteq> ''OPTIONS''" "getValueFromToken E r ''sub'' = Inr userID"
       "getUserProfile E userID = Inr profile"
    using assms that
    by (simp add: processQuestionsWithAI_def Let_def status_http_Error written_http_Error)
  show ?thesis
    using calm same bad by blast
qed

text \<open>
  Claim C5 at work: an empty form.
\<close>

theorem no_questions_no_calls_witness:
  "json_Decode second_fails (Body (post [])) = Inr \<lparr>Html = []\<rparr>
   \<and> extractQuestions second_fails (cleanHTMLContent second_fails (Html \<lparr>Html = []\<rparr>)) = []
   \<and> getValueFromToken second_fails (post []) ''sub'' = Inr ''u1''
   \<and> getUserProfile second_fails ''u1'' = Inr demo_profile
   \<and> status (w (processQuestionsWithAI second_fails [] (post []))) = Some 400
   \<and> sent (final (processQuestionsWithAI second_fails [] (post []))) = []"
proof -
  have facts: "json_Decode second_fails (Body (post [])) = Inr \<lparr>Html = []\<rparr>"
    "extractQuestions second_fails (cleanHTMLContent second_fails (Html \<lparr>Html = []\<rparr>)) = []"
    "getValueFromToken second_fails (post []) ''sub'' = Inr ''u1''"
    "getUserProfile second_fails ''u1'' = Inr demo_profile"
    by (simp_all add: second_fails_def stub_simps Body_post demo_profile_def)
  from no_questions_no_calls [OF facts(1,2), of "[]" _ _ "''u1''" demo_profile]
  have "status (w (processQuestionsWithAI second_fails [] (post []))) = Some 400"
    and "sent (final (processQuestionsWithAI second_fails [] (post []))) = []"
    using facts(3,4) Method_post [of "[]"] by (simp_all add: StatusBadRequest_def)
  then show ?thesis using facts by blast
qed

text \<open>
  Claim C6 at a failing input. The second \<open>sendToAi\<close> is called at second 31 with the
  handler's context, which expired at second 30: it sends its request all the same, under
  \<open>context.TODO()\<close> (line 313), and returns the provider's text forty seconds later. The
  first \<open>sendToAi\<close>, called the same way, fails at once with the context's error and sends
  nothing, as the claim says. Called at instant 0, before the deadline, the second waits
  forty seconds for the provider, the first gives up at the deadline.
\<close>

theorem bedrock_call_ignores_expired_context:
  "expired (WithTimeout Background (30 * Second)) 31000
   \<and> sendToAi_bedrock slow (network slow 0) 31000 (WithTimeout Background (30 * Second)) ''q''
       = (At 71000 (Inr ''late''),
          [\<lparr>Method = ''POST'',
            URL = ''https://bedrock-runtime.us-west-2.amazonaws.com/model/anthropic.claude-v2/invoke'',
            Header = [(''Content-Type'', ''application/json'')],
            Body = ''Human: q'' @ [CHR 0x0A, CHR 0x0A] @ ''Assistant:'', Ctx = TODO\<rparr>])
   \<and> sendToAi slow (network slow 0) 31000 (WithTimeout Background (30 * Second)) ''q''
       = (At 31000 (Inl DeadlineExceeded), [])
   \<and> \<not> expired (WithTimeout Background (30 * Second)) 0
   \<and> fst (sendToAi_bedrock slow (network slow 0) 0 (WithTimeout Background (30 * Second)) ''q'')
       = At 40000 (Inr ''late'')
   \<and> fst (sendToAi slow (network slow 0) 0 (WithTimeout Background (30 * Second)) ''q'')
       = At 30000 (Inl DeadlineExceeded)"
  by (simp add: slow_def stub_def sendToAi_bedrock_def InvokeModel_def RoundTrip_def expired_def
        Second_def answers_after_def sendToAi_def NewRequestWithContext_def client_Do_def)

text \<open>
  Claim C7 at a failing input. One question and a provider that answers after forty seconds:
  the second handler returns at second 40, ten seconds past the deadline, with the late
  answer in the response; with a provider that never answers it never returns. The first
  handler on the same request returns at second 30 with an empty answer, as the claim
  says.
\<close>

theorem bedrock_handler_outlives_deadline:
  "returns (processQuestionsWithAI_bedrock slow [0] (post ''Name?'')) = Some 40000
   \<and> response (processQuestionsWithAI_bedrock slow [0] (post ''Name?''))
       = Some [\<lparr>Question = ''Name?'', Answer = ''late''\<rparr>]
   \<and> returns (processQuestionsWithAI_bedrock mute [0] (post ''Name?'')) = None
   \<and> returns (processQuestionsWithAI slow [0] (post ''Name?'')) = Some 30000
   \<and> response (processQuestionsWithAI slow [0] (post ''Name?''))
       = Some [\<lparr>Question = [], Answer = []\<rparr>]"
  by (simp add: slow_def mute_def stub_def processQuestionsWithAI_bedrock_def post_def
        processQuestionsWithAI_def getUserProfile_def
        Let_def spawn_def run_def respond_def Wait_def response_def Write_def
        WriteHeader_def Header_Set_def cors_def new_writer_def
        sendToAi_bedrock_def InvokeModel_def RoundTrip_def expired_def
        sendToAi_def NewRequestWithContext_def client_Do_def
        Second_def answers_after_def silent_def)

text \<open>
  Claim C8 as it is stated fails on the second handler (lines 344 to 428), which has no
  identity or profile step: for a caller whose token does not resolve and who has no
  profile it answers 200, not 401, sends one call to the provider per question and
  returns the three answers, written from its hard-coded biography.
\<close>

theorem second_handler_ignores_identity:
  "getValueFromToken anonymous (post three_questions) ''sub'' = Inl (errorString ''no cookie'')
   \<and> status (w (processQuestionsWithAI_bedrock anonymous [2, 0, 1] (post three_questions))) = Some 200
   \<and> status (w (processQuestionsWithAI_bedrock anonymous [2, 0, 1] (post three_questions)))
        \<noteq> Some StatusUnauthorized
   \<and> response (processQuestionsWithAI_bedrock anonymous [2, 0, 1] (post three_questions))
        = Some [\<lparr>Question = ''Name?'', Answer = ''OK''\<rparr>,
                \<lparr>Question = ''Why this company?'', Answer = ''OK''\<rparr>,
                \<lparr>Question = ''Strengths?'', Answer = ''OK''\<rparr>]
   \<and> length (sent (final (processQuestionsWithAI_bedrock anonymous [2, 0, 1] (post three_questions)))) = 3"
  by (simp add: anonymous_def stub_def processQuestionsWithAI_bedrock_def post_def lines_three
        Let_def spawn_def run_def respond_def Wait_def response_def Write_def
        WriteHeader_def Header_Set_def cors_def new_writer_def
        sendToAi_bedrock_def InvokeModel_def RoundTrip_def expired_def
        Second_def answers_after_def StatusUnauthorized_def)

text \<open>
  Claim C8, amended: for a request to the first handler (lines 131 to 219; other than the
  \<open>OPTIONS\<close> preflight, which is answered before identity resolution is tried), a failure
  to resolve the identity gives status 401 and a failure to look the profile up gives
  status 500, each with its message as the whole body. In both cases the handler returns
  at once with the fan-out untouched: nothing was logged by the extraction, nothing sent,
  no slot made; and the run is the same whatever \<open>cleanHTMLContent\<close>, \<open>extractQuestions\<close>,
  the provider and the scheduler would do. The second handler (lines 344 to 428) resolves
  no identity and looks no profile up: its run is the same whatever the token resolver
  and the profile store would return.
\<close>

theorem identity_and_profile_errors_abort:
  assumes "Method r \<noteq> ''OPTIONS''"
  shows "(\<forall>err. getValueFromToken E r ''sub'' = Inl err \<longrightarrow>
            status (w (processQuestionsWithAI E sched r)) = Some StatusUnauthorized
          \<and> written (w (processQuestionsWithAI E sched r)) = [Plain (token_failed @ Error err @ [CHR 0x0A])]
          \<and> returns (processQuestionsWithAI E sched r) = Some 0
          \<and> final (processQuestionsWithAI E sched r) = idle
          \<and> processQuestionsWithAI (E\<lparr>cleanHTMLContent := c, extractQuestions := x, network := n\<rparr>) sched' r
              = processQuestionsWithAI E sched r)
       \<and> (\<forall>userID err. getValueFromToken E r ''sub'' = Inr userID \<and> getUserProfile E userID = Inl err \<longrightarrow>
            status (w (processQuestionsWithAI E sched r)) = Some StatusInternalServerError
          \<and> written (w (processQuestionsWithAI E sched r)) = [Plain (lookup_failed @ Error err @ [CHR 0x0A])]
          \<and> returns (processQuestionsWithAI E sched r) = Some 0
          \<and> final (processQuestionsWithAI E sched r) = idle
          \<and> processQuestionsWithAI (E\<lparr>cleanHTMLContent := c, extractQuestions := x, network := n\<rparr>) sched' r
              = processQuestionsWithAI E sched r)
       \<and> processQuestionsWithAI_bedrock (E\<lparr>getValueFromToken := g, QueryRow_Scan := q\<rparr>) sched r
           = processQuestionsWithAI_bedrock E sched r"
  using assms
  by (simp add: processQuestionsWithAI_def Let_def status_http_Error written_http_Error
        getUserProfile_def second_handler_identity_free)

text \<open>
  Claim C8 at work: a token that does not resolve, and a user without a profile.
\<close>

theorem identity_and_profile_errors_abort_witness:
  "getValueFromToken no_token (post three_questions) ''sub'' = Inl (errorString ''no cookie'')
   \<and> status (w (processQuestionsWithAI no_token [2, 0, 1] (post three_questions))) = Some 401
   \<and> final (processQuestionsWithAI no_token [2, 0, 1] (post three_questions)) = idle
   \<and> getValueFromToken no_profile (post three_questions) ''sub'' = Inr ''u1''
   \<and> getUserProfile no_profile ''u1'' = Inl (errorString (profile_failed @ ''sql: no rows in result set''))
   \<and> status (w (processQuestionsWithAI no_profile [2, 0, 1] (post three_questions))) = Some 500
   \<and> final (processQuestionsWithAI no_profile [2, 0, 1] (post three_questions)) = idle
   \<and> processQuestionsWithAI_bedrock anonymous [2, 0, 1] (post three_questions)
       = processQuestionsWithAI_bedrock (stub (\<lambda>k. answers_after 5 ''OK'')) [2, 0, 1]
           (post three_questions)"
proof -
  note a = identity_and_profile_errors_abort [OF Method_post, of no_token three_questions "[2, 0, 1]",
      THEN conjunct1, THEN spec, THEN mp, OF no_token_facts]
  note b = identity_and_profile_errors_abort [OF Method_post, of no_profile three_questions "[2, 0, 1]",
      THEN conjunct2, THEN conjunct1, THEN spec, THEN spec, THEN mp, OF conjI,
      OF no_profile_facts(1,2)]
  note c = identity_and_profile_errors_abort [OF Method_post,
      of "stub (\<lambda>k. answers_after 5 ''OK'')" three_questions "[2, 0, 1]",
      THEN conjunct2, THEN conjunct2]
  have "processQuestionsWithAI_bedrock anonymous [2, 0, 1] (post three_questions)
       = processQuestionsWithAI_bedrock (stub (\<lambda>k. answers_after 5 ''OK'')) [2, 0, 1]
           (post three_questions)"
    unfolding anonymous_def by (rule c)
  moreover
  have "status (w (processQuestionsWithAI no_token [2, 0, 1] (post three_questions))) = Some 401"
    and "final (processQuestionsWithAI no_token [2, 0, 1] (post three_questions)) = idle"
    using a by (simp_all add: StatusUnauthorized_def)
  moreover have "status (w (processQuestionsWithAI no_profile [2, 0, 1] (post three_questions))) = Some 500"
    and "final (processQuestionsWithAI no_profile [2, 0, 1] (post three_questions)) = idle"
    using b by (simp_all add: StatusInternalServerError_def)
  ultimately show ?thesis
    using no_token_facts [of "post three_questions"] no_profile_facts(1) [of "post three_questions"]
      no_profile_facts(2) by blast
qed

text \<open>
  Claim C9: the goroutines are handed the slot indices \<open>0\<close> to \<open>n - 1\<close>, one each. In every
  run that reaches the fan-out, every assignment to a slot is made by the goroutine of the
  same index and lies inside the slice; two different goroutines never write the same
  slot; no slot is written twice; and at the end each slot holds either the question with
  the text its call returned or the empty value it started with. The same holds at every
  moment of every interleaving of the goroutines' statements: no slot has been written
  twice, none by a goroutine of another index, and each slot holds the empty value or
  its final one.
\<close>

theorem slot_ownership:
  assumes "Method r \<noteq> ''OPTIONS''"
    and "getValueFromToken E r ''sub'' = Inr userID"
    and "getUserProfile E userID = Inr profile"
    and "json_Decode E (Body r) = Inr req"
    and "extractQuestions E (cleanHTMLContent E (Html req)) = questions"
    and "questions \<noteq> []"
    and "schedule (length questions) sched"
  shows "map fst (spawn questions) = [0..<length questions]
       \<and> length (answers (final (processQuestionsWithAI E sched r))) = length questions
       \<and> (\<forall>p \<in> set (writes (final (processQuestionsWithAI E sched r))).
             fst p = snd p \<and> snd p < length questions)
       \<and> (\<forall>p \<in> set (writes (final (processQuestionsWithAI E sched r))).
           \<forall>p' \<in> set (writes (final (processQuestionsWithAI E sched r))).
             fst p \<noteq> fst p' \<longrightarrow> snd p \<noteq> snd p')
       \<and> distinct (map snd (writes (final (processQuestionsWithAI E sched r))))
       \<and> \<not> panics (final (processQuestionsWithAI E sched r))
       \<and> (\<forall>i < length questions.
             answers (final (processQuestionsWithAI E sched r)) ! i =
               (case completed (call E profile i (questions ! i)) of
                  Some t \<Rightarrow> \<lparr>Question = questions ! i, Answer = t\<rparr>
                | None \<Rightarrow> \<lparr>Question = [], Answer = []\<rparr>))
       \<and> (\<forall>pcs s.
             (step (call E profile) (spawn questions))\<^sup>*\<^sup>*
               (replicate (length questions) Calling,
                start questions [''Cleaned HTML: '' @ cleanHTMLContent E (Html req)]) (pcs, s) \<longrightarrow>
               distinct (map snd (writes s))
             \<and> (\<forall>p \<in> set (writes s). fst p = snd p \<and> snd p < length questions)
             \<and> (\<forall>i < length questions.
                   answers s ! i = \<lparr>Question = [], Answer = []\<rparr>
                 \<or> answers s ! i = \<lparr>Question = questions ! i,
                                     Answer = the (completed (call E profile i (questions ! i)))\<rparr>))"
proof -
  let ?c = "call E profile"
  let ?init = "start questions [''Cleaned HTML: '' @ cleanHTMLContent E (Html req)]"
  let ?s = "run ?c (spawn questions) sched ?init"
  have fin: "final (processQuestionsWithAI E sched r) = ?s"
    using assms by (rule first_handler_result(4))
  have ws: "writes ?s = map (\<lambda>k. (k, k))
       (filter (\<lambda>k. k < length questions \<and> completed (?c k (questions ! k)) \<noteq> None) sched)"
    by (rule writes_first_handler)
  have len: "length (answers ?s) = length questions"
    by (rule length_slots)
  have own: "\<forall>p \<in> set (writes ?s). fst p = snd p \<and> snd p < length questions"
    unfolding ws by auto
  then have apart: "\<forall>p \<in> set (writes ?s). \<forall>p' \<in> set (writes ?s). fst p \<noteq> fst p' \<longrightarrow> snd p \<noteq> snd p'"
    by metis
  have "distinct sched"
    using assms(7) by (simp add: schedule_def)
  then have once: "distinct (map snd (writes ?s))"
    unfolding ws by (simp add: comp_def distinct_map_filter)
  have safe: "\<not> panics ?s"
    unfolding panics_def len using own by blast
  have slot: "\<forall>i < length questions.
      answers ?s ! i =
        (case completed (call E profile i (questions ! i)) of
           Some t \<Rightarrow> \<lparr>Question = questions ! i, Answer = t\<rparr>
         | None \<Rightarrow> \<lparr>Question = [], Answer = []\<rparr>)"
    using slots [OF _ assms(7), of _ ?c] by simp
  have always: "distinct (map snd (writes s))
             \<and> (\<forall>p \<in> set (writes s). fst p = snd p \<and> snd p < length questions)
             \<and> (\<forall>i < length questions.
                   answers s ! i = \<lparr>Question = [], Answer = []\<rparr>
                 \<or> answers s ! i = \<lparr>Question = questions ! i,
                                     Answer = the (completed (call E profile i (questions ! i)))\<rparr>)"
    if "(step ?c (spawn questions))\<^sup>*\<^sup>* (replicate (length questions) Calling, ?init) (pcs, s)"
    for pcs s
  proof -
    from reachable_invariants [OF that] have con: "consistent ?c questions (pcs, s)" by simp
    then have d: "distinct (writes s)"
      and o: "\<forall>p \<in> set (writes s). fst p = snd p \<and> snd p < length questions"
      and a: "\<forall>k < length questions. answers s ! k =
            (if stored (pcs ! k) then slot ?c questions k else \<lparr>Question = [], Answer = []\<rparr>)"
      by (simp_all add: consistent_iff)
    have "inj_on snd (set (writes s))"
      using o by (intro inj_onI) (metis prod.expand)
    then have "distinct (map snd (writes s))"
      using d by (simp add: distinct_map)
    moreover have "answers s ! i = \<lparr>Question = [], Answer = []\<rparr>
                 \<or> answers s ! i = \<lparr>Question = questions ! i,
                                     Answer = the (completed (call E profile i (questions ! i)))\<rparr>"
      if "i < length questions" for i
      using a that by (auto simp add: slot_def split: option.splits)
    ultimately show ?thesis using o by blast
  qed
  show ?thesis
    unfolding fin using map_fst_spawn len own apart once safe slot always by blast
qed

text \<open>
  Claim C9 at work: of three goroutines ending in the order 2, 0, 1 the second fails; slots
  2 and 0 are written once each, slot 1 is left empty.
\<close>

theorem slot_ownership_witness:
  "schedule 3 [2, 0, 1]
   \<and> writes (final (processQuestionsWithAI second_fails [2, 0, 1] (post three_questions))) = [(2, 2), (0, 0)]
   \<and> distinct (map snd (writes (final (processQuestionsWithAI second_fails [2, 0, 1] (post three_questions)))))
   \<and> \<not> panics (final (processQuestionsWithAI second_fails [2, 0, 1] (post three_questions)))
   \<and> answers (final (processQuestionsWithAI second_fails [2, 0, 1] (post three_questions))) ! 0
       = \<lparr>Question = ''Name?'', Answer = ''OK''\<rparr>
   \<and> answers (final (processQuestionsWithAI second_fails [2, 0, 1] (post three_questions))) ! 1
       = \<lparr>Question = [], Answer = []\<rparr>
   \<and> answers (final (processQuestionsWithAI second_fails [2, 0, 1] (post three_questions))) ! 2
       = \<lparr>Question = ''Strengths?'', Answer = ''OK''\<rparr>"
proof -
  let ?qs = "[''Name?'', ''Why this company?'', ''Strengths?'']"
  let ?out = "processQuestionsWithAI second_fails [2, 0, 1] (post three_questions)"
  note t = slot_ownership [OF second_fails_run]
  have once: "distinct (map snd (writes (final ?out)))" and safe: "\<not> panics (final ?out)"
    using t by blast+
  have slot: "\<forall>i < length ?qs. answers (final ?out) ! i =
               (case completed (call second_fails demo_profile i (?qs ! i)) of
                  Some t \<Rightarrow> \<lparr>Question = ?qs ! i, Answer = t\<rparr>
                | None \<Rightarrow> \<lparr>Question = [], Answer = []\<rparr>)"
    using t by blast
  have s0: "answers (final ?out) ! 0 = \<lparr>Question = ''Name?'', Answer = ''OK''\<rparr>"
    using slot [THEN spec, of 0] by (simp add: second_fails_call)
  have s1: "answers (final ?out) ! 1 = \<lparr>Question = [], Answer = []\<rparr>"
    using slot [THEN spec, of 1] by (simp add: second_fails_call)
  have s2: "answers (final ?out) ! 2 = \<lparr>Question = ''Strengths?'', Answer = ''OK''\<rparr>"
    using slot [THEN spec, of 2] by (simp add: second_fails_call)
  have ws: "writes (final ?out) = [(2, 2), (0, 0)]"
    unfolding first_handler_result(4) [OF second_fails_run] writes_first_handler
    by (simp add: second_fails_call)
  show ?thesis
    using schedule_201 ws once safe s0 s1 s2 by blast
qed

text \<open>
  Claim C10: identity resolution comes first, then the profile lookup, then the decoding of
  the body. A token that does not resolve gives 401, and the run is the same whatever the
  profile store and the decoder would do; a failed profile lookup gives 500, not 400, and
  the run is the same whatever the decoder would do with the body, a malformed one
  included; and a malformed body gives 400 exactly when the token resolved and the profile
  was found.
\<close>

theorem checks_in_order:
  assumes "Method r \<noteq> ''OPTIONS''"
  shows "(\<forall>err. getValueFromToken E r ''sub'' = Inl err \<longrightarrow>
            status (w (processQuestionsWithAI E sched r)) = Some StatusUnauthorized
          \<and> processQuestionsWithAI (E\<lparr>QueryRow_Scan := q, json_Decode := d\<rparr>) sched r
              = processQuestionsWithAI E sched r)
       \<and> (\<forall>userID err. getValueFromToken E r ''sub'' = Inr userID \<and> getUserProfile E userID = Inl err \<longrightarrow>
            status (w (processQuestionsWithAI E sched r)) = Some StatusInternalServerError
          \<and> status (w (processQuestionsWithAI E sched r)) \<noteq> Some StatusBadRequest
          \<and> processQuestionsWithAI (E\<lparr>json_Decode := d\<rparr>) sched r
              = processQuestionsWithAI E sched r)
       \<and> (\<forall>err. json_Decode E (Body r) = Inl err \<longrightarrow>
            (status (w (processQuestionsWithAI E sched r)) = Some StatusBadRequest)
              = (\<exists>userID profile. getValueFromToken E r ''sub'' = Inr userID
                                  \<and> getUserProfile E userID = Inr profile))"
proof -
  have first: "status (w (processQuestionsWithAI E sched r)) = Some StatusUnauthorized
          \<and> processQuestionsWithAI (E\<lparr>QueryRow_Scan := q, json_Decode := d\<rparr>) sched r
              = processQuestionsWithAI E sched r"
    if "getValueFromToken E r ''sub'' = Inl err" for err
    using assms that
    by (simp add: processQuestionsWithAI_def Let_def status_http_Error)
  have second: "status (w (processQuestionsWithAI E sched r)) = Some StatusInternalServerError
          \<and> status (w (processQuestionsWithAI E sched r)) \<noteq> Some StatusBadRequest
          \<and> processQuestionsWithAI (E\<lparr>json_Decode := d\<rparr>) sched r
              = processQuestionsWithAI E sched r"
    if "getValueFromToken E r ''sub'' = Inr userID" "getUserProfile E userID = Inl err"
    for userID err
    using assms that
    by (simp add: processQuestionsWithAI_def Let_def status_http_Error getUserProfile_def
          StatusBadRequest_def StatusInternalServerError_def)
  have third: "(status (w (processQuestionsWithAI E sched r)) = Some StatusBadRequest)
              = (\<exists>userID profile. getValueFromToken E r ''sub'' = Inr userID
                                  \<and> getUserProfile E userID = Inr profile)"
    if "json_Decode E (Body r) = Inl err" for err
    using assms that
    by (auto simp add: processQuestionsWithAI_def Let_def status_http_Error
          StatusBadRequest_def StatusUnauthorized_def StatusInternalServerError_def
          split: sum.splits)
  show ?thesis
    using first second third by blast
qed

text \<open>
  Claim C10 at work: no profile and a malformed body gives 500; a profile and a malformed
  body gives 400; no token gives 401.
\<close>

theorem checks_in_order_witness:
  "getUserProfile no_profile ''u1'' = Inl (errorString (profile_failed @ ''sql: no rows in result set''))
   \<and> json_Decode no_profile (Body (post three_questions)) = Inl (errorString ''unexpected EOF'')
   \<and> status (w (processQuestionsWithAI no_profile [2, 0, 1] (post three_questions))) = Some 500
   \<and> json_Decode no_json (Body (post three_questions)) = Inl (errorString ''unexpected EOF'')
   \<and> status (w (processQuestionsWithAI no_json [2, 0, 1] (post three_questions))) = Some 400
   \<and> status (w (processQuestionsWithAI no_token [2, 0, 1] (post three_questions))) = Some 401"
proof -
  note t = checks_in_order [OF Method_post]
  have "status (w (processQuestionsWithAI no_profile [2, 0, 1] (post three_questions))) = Some 500"
    using t [of no_profile three_questions "[2, 0, 1]", THEN conjunct2, THEN conjunct1,
        THEN spec, THEN spec, THEN mp, OF conjI, OF no_profile_facts(1,2)]
    by (simp add: StatusInternalServerError_def)
  moreover have "status (w (processQuestionsWithAI no_json [2, 0, 1] (post three_questions))) = Some 400"
    using t [of no_json three_questions "[2, 0, 1]", THEN conjunct2, THEN conjunct2,
        THEN spec, THEN mp, OF no_json_facts(3)]
    by (simp add: StatusBadRequest_def no_json_facts)
  moreover have "status (w (processQuestionsWithAI no_token [2, 0, 1] (post three_questions))) = Some 401"
    using t [of no_token three_questions "[2, 0, 1]", THEN conjunct1, THEN spec, THEN mp,
        OF no_token_facts]
    by (simp add: StatusUnauthorized_def)
  ultimately show ?thesis
    using no_profile_facts(2) no_profile_facts(3) [of "Body (post three_questions)"]
      no_json_facts(3) [of "Body (post three_questions)"] by blast
qed

end
